theory Spec2Isabelle
  imports Complex_Main "HOL-Library.AList"
begin

section \<open>Strings and the sanitizer (utils.py)\<close>

text \<open>
  Python strings are modelled as \<open>string\<close>: a list of code points below 256
  (Latin-1). \<open>is_space\<close> is the set of those code points for which
  \<^verbatim>\<open>str.isspace()\<close> holds; the pattern class \<^verbatim>\<open>\s\<close> and \<^verbatim>\<open>str.strip()\<close> both use it:
  U+0009..U+000D, U+001C..U+001F, U+0020, U+0085 and U+00A0.
\<close>

definition is_space :: "char \<Rightarrow> bool" where
  "is_space c = (of_char c \<in> {9, 10, 11, 12, 13, 28, 29, 30, 31, 32, 133, 160 :: nat})"

text \<open>
  The character class of \<^verbatim>\<open>INVALID_FILENAME_CHARS_RE\<close>:
  \<^verbatim>\<open>[<>:"/\\|?*\n\r\t]\<close>.
\<close>

definition invalid_char :: "char \<Rightarrow> bool" where
  "invalid_char c =
     (c \<in> {CHR ''<'', CHR ''>'', CHR '':'', CHR 0x22, CHR ''/'', CHR 0x5C, CHR ''|'',
            CHR ''?'', CHR ''*'', CHR 0x0A, CHR 0x0D, CHR 0x09})"

text \<open>
  \<^verbatim>\<open>$\<close> without MULTILINE matches at the end of the string and just before a
  newline that is the last character. \<open>at_end rest\<close> tells whether \<^verbatim>\<open>$\<close>
  matches in front of the remaining input \<open>rest\<close>.
\<close>

definition at_end :: "string \<Rightarrow> bool" where
  "at_end rest = (rest = [] \<or> rest = [CHR 0x0A])"

text \<open>
  \<^verbatim>\<open>INVALID_FILENAME_CHARS_RE.sub('', s)\<close> for the pattern
  \<^verbatim>\<open>[<>:"/\\|?*\n\r\t]|\.$|^\s|\s$\<close>. Every alternative consumes exactly one
  character, so the substitution drops the characters at which one of the four
  alternatives matches; \<open>start\<close> tells whether the scan is at position 0
  (where \<^verbatim>\<open>^\<close> matches).
\<close>

fun sub_invalid :: "bool \<Rightarrow> string \<Rightarrow> string" where
  "sub_invalid start [] = []"
| "sub_invalid start (c # cs) =
     (if invalid_char c \<or> (c = CHR ''.'' \<and> at_end cs)
         \<or> (start \<and> is_space c) \<or> (is_space c \<and> at_end cs)
      then sub_invalid False cs
      else c # sub_invalid False cs)"

text \<open>\<^verbatim>\<open>MULTI_SPACE_RE.sub(' ', s)\<close> for the pattern \<^verbatim>\<open>\s+\<close>.\<close>

function sub_multi_space :: "string \<Rightarrow> string" where
  "sub_multi_space [] = []"
| "sub_multi_space (c # cs) =
     (if is_space c then CHR '' '' # sub_multi_space (dropWhile is_space cs)
      else c # sub_multi_space cs)"
  by pat_completeness auto
termination
  by (relation "measure length") (auto simp: less_Suc_eq_le length_dropWhile_le)

text \<open>\<^verbatim>\<open>s.strip()\<close>\<close>

definition strip :: "string \<Rightarrow> string" where
  "strip s = rev (dropWhile is_space (rev (dropWhile is_space s)))"

text \<open>
  \<^verbatim>\<open>s.rfind(c, 0, e)\<close> for \<open>e \<ge> 0\<close>: the highest index below \<open>e\<close> holding
  \<open>c\<close>, or \<open>-1\<close>.
\<close>

definition rfind :: "char \<Rightarrow> string \<Rightarrow> nat \<Rightarrow> int" where
  "rfind c s e =
     (let r = dropWhile (\<lambda>x. x \<noteq> c) (rev (take e s))
      in if r = [] then - 1 else int (length r) - 1)"

text \<open>
  \<^verbatim>\<open>sanitize_filename(filename, max_length)\<close>. The maximum length is a
  length, hence a natural number.
\<close>

definition sanitize_filename :: "string \<Rightarrow> nat \<Rightarrow> string" where
  "sanitize_filename filename max_length =
     (if filename = [] then []
      else
        let sanitized = sub_invalid True filename;
            sanitized = sub_multi_space sanitized;
            sanitized = strip sanitized
        in if length sanitized > max_length then
             (let last_space = rfind (CHR '' '') sanitized max_length
              in if last_space > 0 then take (nat last_space) sanitized
                 else take max_length sanitized)
           else sanitized)"

text \<open>
  The control characters in the words of the specification ("any control
  characters"): the code points below U+0020, and U+007F.
\<close>

definition spec_control_char :: "char \<Rightarrow> bool" where
  "spec_control_char c = (of_char c < (32::nat) \<or> of_char c = (127::nat))"

subsection \<open>Auxiliary notions for the proofs about the sanitizer\<close>

text \<open>
  \<open>single_spaced s\<close>: every whitespace character of \<open>s\<close> is U+0020 and is not
  followed by another whitespace character.
\<close>

fun single_spaced :: "string \<Rightarrow> bool" where
  "single_spaced [] = True"
| "single_spaced (c # cs) =
     ((is_space c \<longrightarrow> c = CHR '' '' \<and> (cs \<noteq> [] \<longrightarrow> \<not> is_space (hd cs))) \<and> single_spaced cs)"

text \<open>The three passes of the sanitizer before truncation.\<close>

definition passes :: "string \<Rightarrow> string" where
  "passes s = strip (sub_multi_space (sub_invalid True s))"

text \<open>The truncation step of the sanitizer.\<close>

definition truncate_at :: "string \<Rightarrow> nat \<Rightarrow> string" where
  "truncate_at t m =
     (if length t > m then
        (let last_space = rfind (CHR '' '') t m
         in if last_space > 0 then take (nat last_space) t else take m t)
      else t)"

section \<open>Python values\<close>

text \<open>
  The values that \<^verbatim>\<open>json.load\<close> and \<^verbatim>\<open>response.json()\<close> produce, and that the
  metadata dictionaries hold: \<^verbatim>\<open>None\<close>, booleans, integers, floats, strings,
  lists and dictionaries with string keys. A dictionary is an association list
  in insertion order; \<open>map_of\<close> looks a key up.
\<close>

datatype pyval =
    PNone
  | PBool bool
  | PInt int
  | PFloat real
  | PStr string
  | PList "pyval list"
  | PDict "(string \<times> pyval) list"

type_synonym dict = "(string \<times> pyval) list"

text \<open>The exceptions that the modelled code can raise; all derive from \<^verbatim>\<open>Exception\<close>.\<close>

datatype exn = TypeError | AttributeError | KeyError | IndexError | ValueError | OSError

text \<open>Truth value testing (\<^verbatim>\<open>if v:\<close>, \<^verbatim>\<open>not v\<close>).\<close>

fun truthy :: "pyval \<Rightarrow> bool" where
  "truthy PNone = False"
| "truthy (PBool b) = b"
| "truthy (PInt i) = (i \<noteq> 0)"
| "truthy (PFloat r) = (r \<noteq> 0)"
| "truthy (PStr s) = (s \<noteq> [])"
| "truthy (PList xs) = (xs \<noteq> [])"
| "truthy (PDict d) = (d \<noteq> [])"

text \<open>
  \<^verbatim>\<open>a == b\<close>. Booleans, integers and floats compare by numeric value
  (\<^verbatim>\<open>True == 1 == 1.0\<close>); lists compare element by element; dictionaries compare
  key by key, whatever the order of insertion.
\<close>

fun py_num :: "pyval \<Rightarrow> real option" where
  "py_num (PBool b) = Some (if b then 1 else 0)"
| "py_num (PInt i) = Some (of_int i)"
| "py_num (PFloat r) = Some r"
| "py_num _ = None"

fun py_eq :: "pyval \<Rightarrow> pyval \<Rightarrow> bool" where
  "py_eq PNone b = (b = PNone)"
| "py_eq (PStr s) b = (b = PStr s)"
| "py_eq (PList xs) b = (case b of PList ys \<Rightarrow> list_all2 py_eq xs ys | _ \<Rightarrow> False)"
| "py_eq (PDict d) b =
     (case b of
        PDict e \<Rightarrow>
          length d = length e
          \<and> list_all (\<lambda>(k, v). case map_of e k of None \<Rightarrow> False | Some w \<Rightarrow> py_eq v w) d
      | _ \<Rightarrow> False)"
| "py_eq a b = (case py_num b of None \<Rightarrow> False | Some y \<Rightarrow> py_num a = Some y)"

text \<open>
  \<^verbatim>\<open>v.get(k, default)\<close>: only dictionaries have the method.
\<close>

definition dict_get :: "dict \<Rightarrow> string \<Rightarrow> pyval \<Rightarrow> pyval" where
  "dict_get d k dflt = (case map_of d k of None \<Rightarrow> dflt | Some v \<Rightarrow> v)"

fun py_get :: "pyval \<Rightarrow> string \<Rightarrow> pyval \<Rightarrow> exn + pyval" where
  "py_get (PDict d) k dflt = Inr (dict_get d k dflt)"
| "py_get _ k dflt = Inl AttributeError"

fun is_dict :: "pyval \<Rightarrow> bool" where
  "is_dict (PDict d) = True"
| "is_dict _ = False"

text \<open>
  \<^verbatim>\<open>v[k]\<close> for a string \<open>k\<close>: a dictionary raises \<^verbatim>\<open>KeyError\<close> on a missing
  key; a list or string takes integer indices only and every other value is not
  subscriptable, which both raise \<^verbatim>\<open>TypeError\<close>.
\<close>

fun py_getitem :: "pyval \<Rightarrow> string \<Rightarrow> exn + pyval" where
  "py_getitem (PDict d) k = (case map_of d k of None \<Rightarrow> Inl KeyError | Some v \<Rightarrow> Inr v)"
| "py_getitem _ k = Inl TypeError"

text \<open>
  \<^verbatim>\<open>v[0]\<close>: the first element of a list or the first character of a string
  (\<^verbatim>\<open>IndexError\<close> when empty); a dictionary has string keys only, so the key
  \<open>0\<close> is missing; the other values are not subscriptable.
\<close>

fun py_getitem0 :: "pyval \<Rightarrow> exn + pyval" where
  "py_getitem0 (PList xs) = (case xs of [] \<Rightarrow> Inl IndexError | x # _ \<Rightarrow> Inr x)"
| "py_getitem0 (PStr s) = (case s of [] \<Rightarrow> Inl IndexError | c # _ \<Rightarrow> Inr (PStr [c]))"
| "py_getitem0 (PDict d) = Inl KeyError"
| "py_getitem0 _ = Inl TypeError"

text \<open>\<^verbatim>\<open>sep.join(xs)\<close> on strings.\<close>

fun join :: "string \<Rightarrow> string list \<Rightarrow> string" where
  "join sep [] = []"
| "join sep [x] = x"
| "join sep (x # y # ys) = x @ sep @ join sep (y # ys)"

text \<open>
  \<^verbatim>\<open>sep.join(v)\<close> on values: only a string has the method; the argument is
  iterated (a list by its elements, a string by its characters, a dictionary by
  its keys) and every item must be a string.
\<close>

fun the_strs :: "pyval list \<Rightarrow> string list option" where
  "the_strs [] = Some []"
| "the_strs (PStr s # vs) = (case the_strs vs of None \<Rightarrow> None | Some ss \<Rightarrow> Some (s # ss))"
| "the_strs (_ # vs) = None"

fun py_iter :: "pyval \<Rightarrow> pyval list option" where
  "py_iter (PList xs) = Some xs"
| "py_iter (PStr s) = Some (map (\<lambda>c. PStr [c]) s)"
| "py_iter (PDict d) = Some (map (\<lambda>(k, v). PStr k) d)"
| "py_iter _ = None"

definition py_join :: "pyval \<Rightarrow> pyval \<Rightarrow> exn + pyval" where
  "py_join sep v =
     (case sep of
        PStr s \<Rightarrow>
          (case py_iter v of
             None \<Rightarrow> Inl TypeError
           | Some items \<Rightarrow>
               (case the_strs items of
                  None \<Rightarrow> Inl TypeError
                | Some ss \<Rightarrow> Inr (PStr (join s ss))))
      | _ \<Rightarrow> Inl AttributeError)"

section \<open>Configuration lookup (config_loader.py)\<close>

text \<open>\<^verbatim>\<open>s.split(sep)\<close> for a one-character separator; the result is never empty.\<close>

fun split_on :: "char \<Rightarrow> string \<Rightarrow> string list" where
  "split_on sep [] = [[]]"
| "split_on sep (c # cs) =
     (if c = sep then [] # split_on sep cs
      else (case split_on sep cs of [] \<Rightarrow> [[c]] | w # ws \<Rightarrow> (c # w) # ws))"

text \<open>
  The loop \<^verbatim>\<open>for key in keys: value = value[key]\<close> of \<^verbatim>\<open>get_config_value\<close>.
\<close>

fun traverse :: "pyval \<Rightarrow> string list \<Rightarrow> exn + pyval" where
  "traverse v [] = Inr v"
| "traverse v (k # ks) =
     (case py_getitem v k of Inl e \<Rightarrow> Inl e | Inr v' \<Rightarrow> traverse v' ks)"

text \<open>
  \<^verbatim>\<open>get_config_value(config, key_path, default)\<close>: only \<^verbatim>\<open>KeyError\<close> is caught.
\<close>

definition get_config_value :: "pyval \<Rightarrow> string \<Rightarrow> pyval \<Rightarrow> exn + pyval" where
  "get_config_value config key_path dflt =
     (case traverse config (split_on (CHR ''.'') key_path) of
        Inr v \<Rightarrow> Inr v
      | Inl e \<Rightarrow> (if e = KeyError then Inr dflt else Inl e))"

section \<open>The catalog client (audible_client.py)\<close>

text \<open>
  A request is the direct lookup of an identifier
  (\<^verbatim>\<open>DIRECT_ASIN_URL_TEMPLATE.format(asin=asin)\<close>) or a keyword search
  (\<^verbatim>\<open>KEYWORD_SEARCH_URL_TEMPLATE.format(keywords=keywords)\<close> with the parameter
  \<^verbatim>\<open>num_results\<close>). \<^verbatim>\<open>_make_api_request\<close> answers with a dictionary, or with
  \<^verbatim>\<open>None\<close> after an authentication failure, a 404 or a transport error.

  The network is an oracle \<open>api\<close>: the answer to a request may depend on how many
  requests were made before it, so that the same lookup can fail first and
  succeed later. The requests made so far are kept in a list.
\<close>

datatype request = DirectLookup pyval | KeywordSearch pyval int

type_synonym api = "nat \<Rightarrow> request \<Rightarrow> dict option"

definition make_api_request :: "api \<Rightarrow> request list \<Rightarrow> request \<Rightarrow> dict option \<times> request list" where
  "make_api_request net reqs rq = (net (length reqs) rq, reqs @ [rq])"

text \<open>\<^verbatim>\<open>data and key in data\<close> for the answer of a request.\<close>

definition has_key :: "dict option \<Rightarrow> string \<Rightarrow> bool" where
  "has_key data k = (case data of None \<Rightarrow> False | Some d \<Rightarrow> d \<noteq> [] \<and> map_of d k \<noteq> None)"

definition the_key :: "dict option \<Rightarrow> string \<Rightarrow> pyval" where
  "the_key data k = (case data of None \<Rightarrow> PNone | Some d \<Rightarrow> dict_get d k PNone)"

text \<open>
  \<^verbatim>\<open>search_by_keywords(keywords, num_results)\<close>: the value under
  \<^verbatim>\<open>"products"\<close>, whatever it is, or \<^verbatim>\<open>None\<close>.
\<close>

definition search_by_keywords :: "api \<Rightarrow> request list \<Rightarrow> pyval \<Rightarrow> int \<Rightarrow> pyval \<times> request list" where
  "search_by_keywords net reqs keywords num_results =
     (let (data, reqs') = make_api_request net reqs (KeywordSearch keywords num_results)
      in if has_key data ''products'' then (the_key data ''products'', reqs') else (PNone, reqs'))"

text \<open>
  \<^verbatim>\<open>results[0].get("asin")\<close>, as both the fallback of the fetch and the search
  stages of the waterfall evaluate it.
\<close>

definition first_asin :: "pyval \<Rightarrow> exn + pyval" where
  "first_asin results =
     (case py_getitem0 results of
        Inl e \<Rightarrow> Inl e
      | Inr first \<Rightarrow> py_get first ''asin'' PNone)"

text \<open>
  \<^verbatim>\<open>get_metadata_by_asin(asin)\<close>. \<^verbatim>\<open>_parse_product_json\<close> is the parameter
  \<open>parse\<close>: it turns the product into the metadata dictionary or raises. The
  result is the metadata, \<^verbatim>\<open>None\<close>, or an exception.
\<close>

definition get_metadata_by_asin ::
  "(pyval \<Rightarrow> exn + dict) \<Rightarrow> api \<Rightarrow> request list \<Rightarrow> pyval \<Rightarrow> (exn + dict option) \<times> request list"
where
  "get_metadata_by_asin parse net reqs asin =
     (let (data, reqs1) = make_api_request net reqs (DirectLookup asin)
      in if has_key data ''product'' then (map_sum id Some (parse (the_key data ''product'')), reqs1)
         else
           let (search_results, reqs2) = search_by_keywords net reqs1 asin 1
           in if \<not> truthy search_results then (Inr None, reqs2)
              else
                (case first_asin search_results of
                   Inl e \<Rightarrow> (Inl e, reqs2)
                 | Inr matched_asin \<Rightarrow>
                     if \<not> truthy matched_asin then (Inr None, reqs2)
                     else if py_eq matched_asin asin then
                       (let (data, reqs3) = make_api_request net reqs2 (DirectLookup matched_asin)
                        in if has_key data ''product''
                           then (map_sum id Some (parse (the_key data ''product'')), reqs3)
                           else (Inr None, reqs3))
                     else (Inr None, reqs2)))"

section \<open>The metadata formatter (main.py)\<close>

text \<open>
  Dictionaries are mutable objects, so \<^verbatim>\<open>apply_formatting_rules\<close> runs on a store
  of dictionary objects: an address is an index into the list of objects,
  \<^verbatim>\<open>d.copy()\<close> allocates a new object with the same items, and \<^verbatim>\<open>d[k] = v\<close>
  updates the object at the address of \<open>d\<close> in place (a present key keeps its
  position, a new key goes last). The values inside a dictionary are never
  mutated by the formatter, which only reads them.
\<close>

type_synonym store = "dict list"

definition copy_dict :: "nat \<Rightarrow> store \<Rightarrow> nat \<times> store" where
  "copy_dict a h = (length h, h @ [h ! a])"

definition setitem :: "nat \<Rightarrow> string \<Rightarrow> pyval \<Rightarrow> store \<Rightarrow> store" where
  "setitem a k v h = h[a := AList.update k v (h ! a)]"

text \<open>
  The steps of \<^verbatim>\<open>apply_formatting_rules\<close> after the copy, each on the store;
  \<open>fmt\<close> holds the items of \<^verbatim>\<open>fmt_cfg\<close> and \<open>formatted\<close> is the address of
  the copy.
\<close>

definition set_year :: "dict \<Rightarrow> dict \<Rightarrow> pyval \<Rightarrow> nat \<Rightarrow> store \<Rightarrow> store" where
  "set_year fmt md release_date formatted h =
     (if truthy (dict_get fmt ''use_full_release_date_as_year'' (PBool False))
      then setitem formatted ''formatted_year'' release_date h
      else setitem formatted ''formatted_year'' (dict_get md ''year'' PNone) h)"

definition set_album_artist ::
  "dict \<Rightarrow> pyval \<Rightarrow> pyval \<Rightarrow> nat \<Rightarrow> store \<Rightarrow> exn option \<times> store" where
  "set_album_artist fmt delimiter authors formatted h =
     (if truthy (dict_get fmt ''single_album_artist'' (PBool False)) \<and> truthy authors then
        (case py_getitem0 authors of
           Inl e \<Rightarrow> (Some e, h)
         | Inr first \<Rightarrow>
             (let h1 = setitem formatted ''formatted_album_artist'' first h
              in case py_join delimiter authors of
                   Inl e \<Rightarrow> (Some e, h1)
                 | Inr joined \<Rightarrow>
                     (None, setitem formatted ''formatted_album_artists_list'' joined h1)))
      else
        (case py_join delimiter authors of
           Inl e \<Rightarrow> (Some e, h)
         | Inr joined \<Rightarrow>
             (None, setitem formatted ''formatted_album_artists_list'' PNone
                      (setitem formatted ''formatted_album_artist'' joined h))))"

definition set_artist ::
  "dict \<Rightarrow> pyval \<Rightarrow> pyval \<Rightarrow> nat \<Rightarrow> store \<Rightarrow> exn option \<times> store" where
  "set_artist fmt delimiter narrators formatted h =
     (let artist_parts = [dict_get (h ! formatted) ''formatted_album_artist'' PNone]
      in case (if truthy (dict_get fmt ''narrator_in_artist_field'' (PBool True))
                  \<and> truthy narrators
               then map_sum id (\<lambda>j. artist_parts @ [j]) (py_join delimiter narrators)
               else Inr artist_parts)
         of
           Inl e \<Rightarrow> (Some e, h)
         | Inr parts \<Rightarrow>
             (case py_join (PStr '' & '') (PList (filter truthy parts)) of
                Inl e \<Rightarrow> (Some e, h)
              | Inr artist \<Rightarrow> (None, setitem formatted ''formatted_artist'' artist h)))"

definition set_narrator :: "pyval \<Rightarrow> pyval \<Rightarrow> nat \<Rightarrow> store \<Rightarrow> exn option \<times> store" where
  "set_narrator delimiter narrators formatted h =
     (case py_join delimiter narrators of
        Inl e \<Rightarrow> (Some e, h)
      | Inr narrator \<Rightarrow> (None, setitem formatted ''formatted_narrator'' narrator h))"

text \<open>
  \<^verbatim>\<open>apply_formatting_rules(metadata, config)\<close>, with \<open>metadata\<close> the address of
  the input dictionary. The result is the address of the returned dictionary or
  the exception raised, and the store at that moment.
\<close>

definition apply_formatting_rules :: "store \<Rightarrow> nat \<Rightarrow> pyval \<Rightarrow> (exn + nat) \<times> store" where
  "apply_formatting_rules h metadata config =
     (case py_get config ''formatting'' (PDict []) of
        Inl e \<Rightarrow> (Inl e, h)
      | Inr fmt_cfg \<Rightarrow>
          (case fmt_cfg of
             PDict fmt \<Rightarrow>
               (let delimiter = dict_get fmt ''multi_value_delimiter'' (PStr '' & '');
                    authors = dict_get (h ! metadata) ''authors'' (PList []);
                    narrators = dict_get (h ! metadata) ''narrators'' (PList []);
                    release_date = dict_get (h ! metadata) ''release_date'' PNone;
                    (formatted, h1) = copy_dict metadata h;
                    h2 = set_year fmt (h1 ! metadata) release_date formatted h1
                in case set_album_artist fmt delimiter authors formatted h2 of
                     (Some e, h3) \<Rightarrow> (Inl e, h3)
                   | (None, h3) \<Rightarrow>
                       (case set_artist fmt delimiter narrators formatted h3 of
                          (Some e, h4) \<Rightarrow> (Inl e, h4)
                        | (None, h4) \<Rightarrow>
                            (case set_narrator delimiter narrators formatted h4 of
                               (Some e, h5) \<Rightarrow> (Inl e, h5)
                             | (None, h5) \<Rightarrow> (Inr formatted, h5))))
           | _ \<Rightarrow> (Inl AttributeError, h)))"

text \<open>The formatter as a function from the raw metadata to the formatted metadata.\<close>

definition format_metadata :: "dict \<Rightarrow> pyval \<Rightarrow> exn + dict" where
  "format_metadata raw config =
     (case apply_formatting_rules [raw] 0 config of
        (Inl e, h) \<Rightarrow> Inl e
      | (Inr formatted, h) \<Rightarrow> Inr (h ! formatted))"

section \<open>Paths\<close>

text \<open>
  A path is the list of its components. \<open>path_join p seg\<close> is \<^verbatim>\<open>p / seg\<close> for a
  segment without separators: an empty segment and the segment \<^verbatim>\<open>"."\<close> leave
  the path as it is. \<open>path_name\<close> is \<^verbatim>\<open>p.name\<close>, \<open>path_parent\<close> is \<^verbatim>\<open>p.parent\<close>
  of a path with at least one component, and \<open>path_suffix\<close> is \<^verbatim>\<open>p.suffix\<close>
  computed from the name: the part from the last period on, when that period is
  neither the first nor the last character.
\<close>

type_synonym path = "string list"

definition path_join :: "path \<Rightarrow> string \<Rightarrow> path" where
  "path_join p seg = (if seg = [] \<or> seg = ''.'' then p else p @ [seg])"

definition path_name :: "path \<Rightarrow> string" where
  "path_name p = (if p = [] then [] else last p)"

definition path_parent :: "path \<Rightarrow> path" where
  "path_parent p = butlast p"

definition path_suffix :: "string \<Rightarrow> string" where
  "path_suffix name =
     (let i = rfind (CHR ''.'') name (length name)
      in if 0 < i \<and> i < int (length name) - 1 then drop (nat i) name else [])"

section \<open>The identifier in a file name (main.py)\<close>

text \<open>
  \<^verbatim>\<open>ASIN_IN_FILENAME_RE\<close> is \<^verbatim>\<open>\b(B0[0-9A-Z]{8})\b\<close>, ignoring case.
  \<open>is_word\<close> is the class \<^verbatim>\<open>\w\<close> on the code points below 256: the
  alphanumeric characters and the underscore.
\<close>

definition is_word :: "char \<Rightarrow> bool" where
  "is_word c =
     (let n = (of_char c :: nat)
      in (48 \<le> n \<and> n \<le> 57) \<or> (65 \<le> n \<and> n \<le> 90) \<or> (97 \<le> n \<and> n \<le> 122) \<or> n = 95
         \<or> n \<in> {170, 178, 179, 181, 185, 186, 188, 189, 190}
         \<or> (192 \<le> n \<and> n \<noteq> 215 \<and> n \<noteq> 247))"

definition asin_char :: "char \<Rightarrow> bool" where
  "asin_char c =
     (let n = (of_char c :: nat)
      in (48 \<le> n \<and> n \<le> 57) \<or> (65 \<le> n \<and> n \<le> 90) \<or> (97 \<le> n \<and> n \<le> 122))"

text \<open>
  The pattern matched at the head of \<open>s\<close>; \<open>prev_word\<close> tells whether the
  character before \<open>s\<close> is a word character. The first \<^verbatim>\<open>\b\<close> stands before a
  word character, so it asks for no word character before; the second stands
  after one, so it asks for no word character after.
\<close>

definition asin_at :: "bool \<Rightarrow> string \<Rightarrow> string option" where
  "asin_at prev_word s =
     (let m = take 10 s; rest = drop 10 s
      in if length m = 10 \<and> \<not> prev_word
            \<and> (m ! 0 = CHR ''B'' \<or> m ! 0 = CHR ''b'') \<and> m ! 1 = CHR ''0''
            \<and> list_all asin_char (drop 2 m)
            \<and> (rest = [] \<or> \<not> is_word (hd rest))
         then Some m else None)"

text \<open>\<^verbatim>\<open>ASIN_IN_FILENAME_RE.search(name)\<close> and \<^verbatim>\<open>group(1)\<close>: the leftmost match.\<close>

fun asin_search :: "bool \<Rightarrow> string \<Rightarrow> string option" where
  "asin_search prev_word [] = None"
| "asin_search prev_word (c # cs) =
     (case asin_at prev_word (c # cs) of
        Some m \<Rightarrow> Some m
      | None \<Rightarrow> asin_search (is_word c) cs)"

definition asin_in_filename :: "string \<Rightarrow> string option" where
  "asin_in_filename name = asin_search False name"

section \<open>The environment of a run\<close>

text \<open>
  \<^verbatim>\<open>tag_reader.read_tags\<close> returns a dictionary with the keys \<^verbatim>\<open>asin\<close>,
  \<^verbatim>\<open>title\<close> and \<^verbatim>\<open>author\<close>, each a string or \<^verbatim>\<open>None\<close>; it catches every
  exception.
\<close>

record tags =
  tag_asin :: "string option"
  tag_title :: "string option"
  tag_author :: "string option"

text \<open>Truth value of an optional string: present and not empty.\<close>

definition opt_truthy :: "string option \<Rightarrow> bool" where
  "opt_truthy v = (case v of None \<Rightarrow> False | Some s \<Rightarrow> s \<noteq> [])"

text \<open>
  What a run meets outside the program: the tags of each file, the catalog, and
  the outcome of each filesystem operation. Four pure helpers of the source are
  parameters too, since their results only pass through the code modelled here:
  \<^verbatim>\<open>_parse_product_json\<close>, \<^verbatim>\<open>clean_filename_for_search\<close>, the rendering
  \<^verbatim>\<open>str(v)\<close> of a number, list or dictionary inside an f-string, and the
  assembly of the XML text in \<^verbatim>\<open>write_opf\<close> (which may raise). Every theorem
  below holds for all values of these parameters.
\<close>

record env =
  tag_reader :: "path \<Rightarrow> tags"
  catalog :: api
  parse_product_json :: "pyval \<Rightarrow> exn + dict"
  clean_filename_for_search :: "string \<Rightarrow> string"
  str_of :: "pyval \<Rightarrow> string"
  opf_text :: "dict \<Rightarrow> exn + string"
  path_exists :: "path \<Rightarrow> bool"
  mkdir_ok :: "path \<Rightarrow> bool"
  file_op_ok :: "path \<Rightarrow> path \<Rightarrow> bool"
  write_ok :: "path \<Rightarrow> bool"
  chmod_ok :: "path \<Rightarrow> bool"
  cover_fetch_ok :: "pyval \<Rightarrow> bool"

text \<open>
  The arguments of \<^verbatim>\<open>run_scan\<close> and what it reads from the configuration
  before the loop. \<open>max_filename_length\<close> is
  \<^verbatim>\<open>organizer.max_filename_length\<close>, a length; \<open>asin_map\<close> is the manual
  override map, from file name to identifier.
\<close>

record settings =
  configuration :: pyval
  max_filename_length :: nat
  create_opf :: bool
  asin_map :: "string \<rightharpoonup> string"
  input_path :: path
  output_path :: path
  dry_run :: bool
  move_files :: bool

text \<open>
  Filesystem operations, each with its outcome (\<open>True\<close> when it succeeded).
\<close>

datatype fs_op =
    MkDir path bool
  | CopyFile path path bool
  | MoveFile path path bool
  | WriteFile path bool
  | Chmod path bool

text \<open>
  The state of a run: the catalog requests and tag reads made so far, the
  filesystem operations attempted so far, the (source, destination) pairs that
  \<^verbatim>\<open>organize_audio_file\<close> decided on (\<open>placements\<close>) and that
  \<^verbatim>\<open>move_to_failed_folder\<close> decided on (\<open>failed_moves\<close>), the in-memory ledger
  \<^verbatim>\<open>processed_log_dict\<close> from source path to entry, and the two counters.
\<close>

record state =
  requests :: "request list"
  tag_reads :: "path list"
  fs_ops :: "fs_op list"
  placements :: "(path \<times> path) list"
  failed_moves :: "(path \<times> path) list"
  processed_log_dict :: "(path \<times> dict) list"
  processed_count :: nat
  failed_count :: nat

definition do_fs :: "fs_op \<Rightarrow> state \<Rightarrow> state" where
  "do_fs op st = st\<lparr>fs_ops := fs_ops st @ [op]\<rparr>"

section \<open>The identity resolver (main.py, the waterfall in the loop of run_scan)\<close>

text \<open>
  A search stage: \<^verbatim>\<open>results = client.search_by_keywords(term, num_results=1)\<close>,
  then \<^verbatim>\<open>if results: best_asin = results[0].get("asin")\<close>. Without results
  \<^verbatim>\<open>best_asin\<close> keeps its value.
\<close>

definition search_stage :: "env \<Rightarrow> string \<Rightarrow> pyval \<Rightarrow> state \<Rightarrow> (exn + pyval) \<times> state" where
  "search_stage E term best_asin st =
     (let (results, reqs) = search_by_keywords (catalog E) (requests st) (PStr term) 1;
          st1 = st\<lparr>requests := reqs\<rparr>
      in if truthy results then (first_asin results, st1) else (Inr best_asin, st1))"

text \<open>
  Block 1 (lines 198 to 201), the manual override map:
  \<^verbatim>\<open>if item_path.name in asin_map: best_asin = asin_map[item_path.name]\<close>.
\<close>

definition stage_map :: "settings \<Rightarrow> path \<Rightarrow> pyval" where
  "stage_map S item_path =
     (case asin_map S (path_name item_path) of None \<Rightarrow> PNone | Some a \<Rightarrow> PStr a)"

text \<open>
  Block 2 (lines 203 to 214), under \<^verbatim>\<open>if not best_asin\<close>: the embedded
  identifier, else the identifier in the file name. The second component is the
  variable \<^verbatim>\<open>tags\<close>, \<open>None\<close> while it is the empty dictionary.
\<close>

definition stage_tags :: "env \<Rightarrow> path \<Rightarrow> pyval \<Rightarrow> state \<Rightarrow> pyval \<times> tags option \<times> state" where
  "stage_tags E item_path best_asin st =
     (if \<not> truthy best_asin then
        (let tgs = tag_reader E item_path;
             st1 = st\<lparr>tag_reads := tag_reads st @ [item_path]\<rparr>
         in if opt_truthy (tag_asin tgs) then (PStr (the (tag_asin tgs)), Some tgs, st1)
            else (case asin_in_filename (path_name item_path) of
                    Some m \<Rightarrow> (PStr m, Some tgs, st1)
                  | None \<Rightarrow> (best_asin, Some tgs, st1)))
      else (best_asin, None, st))"

text \<open>
  Block 3 (lines 216 to 225), under \<^verbatim>\<open>if not best_asin\<close>: the search by the
  tags \<^verbatim>\<open>f"{tags['author']} {tags['title']}"\<close>.
\<close>

definition stage_tag_search ::
  "env \<Rightarrow> path \<Rightarrow> pyval \<Rightarrow> tags option \<Rightarrow> state \<Rightarrow> (exn + pyval) \<times> state" where
  "stage_tag_search E item_path best_asin tgs0 st =
     (if \<not> truthy best_asin then
        (let (tgs, st1) =
               (case tgs0 of
                  None \<Rightarrow> (tag_reader E item_path, st\<lparr>tag_reads := tag_reads st @ [item_path]\<rparr>)
                | Some t \<Rightarrow> (t, st))
         in if opt_truthy (tag_title tgs) \<and> opt_truthy (tag_author tgs) then
              search_stage E (the (tag_author tgs) @ '' '' @ the (tag_title tgs)) best_asin st1
            else (Inr best_asin, st1))
      else (Inr best_asin, st))"

text \<open>
  Block 4 (lines 227 to 240), under \<^verbatim>\<open>if not best_asin\<close>: the search by the
  cleaned folder and file name.
\<close>

definition stage_filename_search ::
  "env \<Rightarrow> settings \<Rightarrow> path \<Rightarrow> pyval \<Rightarrow> state \<Rightarrow> (exn + pyval) \<times> state" where
  "stage_filename_search E S item_path best_asin st =
     (if \<not> truthy best_asin then
        (let parent_folder_name = path_name (path_parent item_path);
             file_name = path_name item_path;
             combined_search_string =
               (if path_parent item_path = input_path S then file_name
                else parent_folder_name @ '' '' @ file_name)
         in search_stage E (clean_filename_for_search E combined_search_string) best_asin st)
      else (Inr best_asin, st))"

text \<open>
  The waterfall for one candidate: the value of \<^verbatim>\<open>best_asin\<close> after the four
  blocks, or the exception raised in one of them.
\<close>

definition resolve :: "env \<Rightarrow> settings \<Rightarrow> path \<Rightarrow> state \<Rightarrow> (exn + pyval) \<times> state" where
  "resolve E S item_path st =
     (let (best_asin, tgs, st1) = stage_tags E item_path (stage_map S item_path) st
      in case stage_tag_search E item_path best_asin tgs st1 of
           (Inl e, st2) \<Rightarrow> (Inl e, st2)
         | (Inr best_asin, st2) \<Rightarrow> stage_filename_search E S item_path best_asin st2)"

section \<open>The organizer (file_manager.py)\<close>

text \<open>
  \<^verbatim>\<open>sanitize_filename\<close> applied to a value: a false value gives the empty
  string; a string is sanitized; on any other value the substitution of the
  pattern raises \<^verbatim>\<open>TypeError\<close>.
\<close>

definition sanitize_value :: "pyval \<Rightarrow> nat \<Rightarrow> exn + string" where
  "sanitize_value v max_length =
     (if \<not> truthy v then Inr []
      else (case v of PStr s \<Rightarrow> Inr (sanitize_filename s max_length) | _ \<Rightarrow> Inl TypeError))"

text \<open>A value inside an f-string: \<^verbatim>\<open>f"{v}"\<close>.\<close>

definition fstr :: "env \<Rightarrow> pyval \<Rightarrow> string" where
  "fstr E v =
     (case v of
        PStr s \<Rightarrow> s
      | PNone \<Rightarrow> ''None''
      | PBool b \<Rightarrow> (if b then ''True'' else ''False'')
      | _ \<Rightarrow> str_of E v)"

text \<open>
  \<^verbatim>\<open>create_book_structure(output_dir, metadata, config, dry_run)\<close>: the target
  folder, \<^verbatim>\<open>None\<close>, or an exception.
\<close>

definition create_book_structure ::
  "env \<Rightarrow> path \<Rightarrow> dict \<Rightarrow> nat \<Rightarrow> bool \<Rightarrow> state \<Rightarrow> (exn + path option) \<times> state" where
  "create_book_structure E output_dir metadata max_len dry st =
     (case (if truthy (dict_get metadata ''authors'' PNone)
            then py_getitem0 (dict_get metadata ''authors'' PNone)
            else Inr (PStr ''Unknown Author'')) of
        Inl e \<Rightarrow> (Inl e, st)
      | Inr primary_author \<Rightarrow>
     (case sanitize_value primary_author max_len of
        Inl e \<Rightarrow> (Inl e, st)
      | Inr author_folder_name \<Rightarrow>
     (case sanitize_value (dict_get metadata ''title'' (PStr [])) max_len of
        Inl e \<Rightarrow> (Inl e, st)
      | Inr title_str \<Rightarrow>
          if title_str = [] then (Inr None, st)
          else
     (case sanitize_value (dict_get metadata ''series'' (PStr [])) max_len of
        Inl e \<Rightarrow> (Inl e, st)
      | Inr series_str \<Rightarrow>
          (let all_authors_str = dict_get metadata ''formatted_album_artist'' (PStr ''Unknown Author'');
               year_str = dict_get metadata ''formatted_year'' (PStr []);
               book_folder_name =
                 sanitize_filename
                   (title_str @ '' {'' @ fstr E all_authors_str @ ''} {'' @ fstr E year_str @ ''}'')
                   max_len;
               target_folder = path_join output_dir author_folder_name;
               target_folder =
                 (if series_str \<noteq> [] then path_join target_folder series_str else target_folder);
               target_folder = path_join target_folder book_folder_name
           in if dry then (Inr (Some target_folder), st)
              else if mkdir_ok E target_folder
                then (Inr (Some target_folder), do_fs (MkDir target_folder True) st)
                else (Inr None, do_fs (MkDir target_folder False) st))))))"

text \<open>
  \<^verbatim>\<open>_safe_file_op(source, dest, move)\<close>: the \<^verbatim>\<open>OSError\<close> of a failed copy or
  move is caught and logged; nothing is returned.
\<close>

definition safe_file_op :: "env \<Rightarrow> path \<Rightarrow> path \<Rightarrow> bool \<Rightarrow> state \<Rightarrow> state" where
  "safe_file_op E source dest move st =
     (if move then do_fs (MoveFile source dest (file_op_ok E source dest)) st
      else do_fs (CopyFile source dest (file_op_ok E source dest)) st)"

text \<open>
  \<^verbatim>\<open>organize_audio_file(source_file, output_dir, metadata, config, dry_run, move)\<close>:
  the target folder, \<^verbatim>\<open>None\<close>, or an exception. The pair of the source and
  \<^verbatim>\<open>target_file_path\<close> is the decision, logged in a dry run and carried out
  otherwise.
\<close>

definition organize_audio_file ::
  "env \<Rightarrow> path \<Rightarrow> path \<Rightarrow> dict \<Rightarrow> nat \<Rightarrow> bool \<Rightarrow> bool \<Rightarrow> state \<Rightarrow> (exn + path option) \<times> state"
where
  "organize_audio_file E source_file output_dir metadata max_len dry move st =
     (case create_book_structure E output_dir metadata max_len dry st of
        (Inl e, st1) \<Rightarrow> (Inl e, st1)
      | (Inr None, st1) \<Rightarrow> (Inr None, st1)
      | (Inr (Some target_folder), st1) \<Rightarrow>
     (case sanitize_value (dict_get metadata ''title'' (PStr [])) max_len of
        Inl e \<Rightarrow> (Inl e, st1)
      | Inr title_str \<Rightarrow>
     (case sanitize_value (dict_get metadata ''series'' (PStr [])) max_len of
        Inl e \<Rightarrow> (Inl e, st1)
      | Inr series_str \<Rightarrow>
          (let all_authors_str = dict_get metadata ''formatted_album_artist'' (PStr ''Unknown Author'');
               year_str = dict_get metadata ''formatted_year'' (PStr []);
               series_part = (if series_str \<noteq> [] then '' {'' @ series_str @ ''}'' else []);
               new_filename_base =
                 title_str @ series_part @ '' {'' @ fstr E all_authors_str @ ''} {''
                   @ fstr E year_str @ ''}'';
               new_filename =
                 sanitize_filename (new_filename_base @ path_suffix (path_name source_file)) max_len;
               target_file_path = path_join target_folder new_filename;
               st2 = st1\<lparr>placements := placements st1 @ [(source_file, target_file_path)]\<rparr>
           in if dry then (Inr (Some target_folder), st2)
              else (Inr (Some target_folder), safe_file_op E source_file target_file_path move st2)))))"

text \<open>
  \<^verbatim>\<open>move_to_failed_folder(source_file, output_dir, dry_run, move)\<close>: every
  \<^verbatim>\<open>OSError\<close> is caught.
\<close>

definition move_to_failed_folder :: "env \<Rightarrow> path \<Rightarrow> path \<Rightarrow> bool \<Rightarrow> bool \<Rightarrow> state \<Rightarrow> state" where
  "move_to_failed_folder E source_file output_dir dry move st =
     (let failed_dir = path_join output_dir ''__FAILED_TO_PROCESS__'';
          dest = path_join failed_dir (path_name source_file);
          st1 = st\<lparr>failed_moves := failed_moves st @ [(source_file, dest)]\<rparr>
      in if dry then st1
         else if mkdir_ok E failed_dir
           then safe_file_op E source_file dest move (do_fs (MkDir failed_dir True) st1)
           else do_fs (MkDir failed_dir False) st1)"

section \<open>Artifacts, cover and ledger (metadata_writer.py, audible_client.py, utils.py)\<close>

text \<open>
  \<^verbatim>\<open>_safe_write(path, content)\<close>: an \<^verbatim>\<open>IOError\<close> is caught; writing a value
  that is not a string to the opened file raises \<^verbatim>\<open>TypeError\<close>, which is not.
\<close>

definition safe_write :: "env \<Rightarrow> path \<Rightarrow> pyval \<Rightarrow> state \<Rightarrow> exn option \<times> state" where
  "safe_write E p content st =
     (if write_ok E p then
        (case content of
           PStr s \<Rightarrow> (None, do_fs (WriteFile p True) st)
         | _ \<Rightarrow> (Some TypeError, do_fs (WriteFile p False) st))
      else (None, do_fs (WriteFile p False) st))"

text \<open>
  \<^verbatim>\<open>write_opf(metadata, folder_path, dry_run)\<close>; the text of the file is
  \<open>opf_text\<close>.
\<close>

definition write_opf :: "env \<Rightarrow> dict \<Rightarrow> path \<Rightarrow> bool \<Rightarrow> state \<Rightarrow> exn option \<times> state" where
  "write_opf E metadata folder_path dry st =
     (if dry then (None, st)
      else (case opf_text E metadata of
              Inl e \<Rightarrow> (Some e, st)
            | Inr xml \<Rightarrow> safe_write E (path_join folder_path ''book.opf'') (PStr xml) st))"

text \<open>
  The two text files written when no OPF file is: \<^verbatim>\<open>desc.txt\<close> from
  \<^verbatim>\<open>description\<close> and \<^verbatim>\<open>reader.txt\<close> from \<^verbatim>\<open>formatted_narrator\<close>, each only
  when the value is true.
\<close>

definition write_text_field ::
  "env \<Rightarrow> dict \<Rightarrow> string \<Rightarrow> path \<Rightarrow> bool \<Rightarrow> state \<Rightarrow> exn option \<times> state" where
  "write_text_field E metadata key p dry st =
     (let v = dict_get metadata key PNone
      in if truthy v then (if dry then (None, st) else safe_write E p v st) else (None, st))"

text \<open>
  \<^verbatim>\<open>write_metadata_files(metadata, folder_path, dry_run, create_opf)\<close>. The dump
  of \<^verbatim>\<open>raw_json\<close> catches \<^verbatim>\<open>IOError\<close> and \<^verbatim>\<open>TypeError\<close>.
\<close>

definition write_metadata_files ::
  "env \<Rightarrow> dict \<Rightarrow> path \<Rightarrow> bool \<Rightarrow> bool \<Rightarrow> state \<Rightarrow> exn option \<times> state" where
  "write_metadata_files E metadata folder_path dry opf st =
     (let (continue, st1) =
            (if \<not> path_exists E folder_path then
               (if dry then (True, st)
                else if mkdir_ok E folder_path then (True, do_fs (MkDir folder_path True) st)
                else (False, do_fs (MkDir folder_path False) st))
             else (True, st))
      in if \<not> continue then (None, st1)
         else
           (case (if opf then write_opf E metadata folder_path dry st1
                  else (case write_text_field E metadata ''description''
                               (path_join folder_path ''desc.txt'') dry st1 of
                          (Some e, st2) \<Rightarrow> (Some e, st2)
                        | (None, st2) \<Rightarrow>
                            write_text_field E metadata ''formatted_narrator''
                              (path_join folder_path ''reader.txt'') dry st2)) of
              (Some e, st3) \<Rightarrow> (Some e, st3)
            | (None, st3) \<Rightarrow>
                (if truthy (dict_get metadata ''raw_json'' PNone) \<and> \<not> dry
                 then (None, do_fs (WriteFile (path_join folder_path ''metadata.json'')
                                      (write_ok E (path_join folder_path ''metadata.json''))) st3)
                 else (None, st3))))"

text \<open>
  \<^verbatim>\<open>download_cover(cover_url, save_path, dry_run)\<close>: a failed request is caught
  (\<^verbatim>\<open>RequestException\<close>); an \<^verbatim>\<open>OSError\<close> on opening or writing the file is
  not. The boolean result is not used by the caller.
\<close>

definition download_cover :: "env \<Rightarrow> pyval \<Rightarrow> path \<Rightarrow> bool \<Rightarrow> state \<Rightarrow> exn option \<times> state" where
  "download_cover E cover_url save_path dry st =
     (if \<not> truthy cover_url then (None, st)
      else if dry then (None, st)
      else if \<not> cover_fetch_ok E cover_url then (None, st)
      else if write_ok E save_path then (None, do_fs (WriteFile save_path True) st)
      else (Some OSError, do_fs (WriteFile save_path False) st))"

text \<open>
  \<^verbatim>\<open>append_to_processed_log(output_dir, original_file_path, metadata,
  processed_dict)\<close>: the entry goes into the dictionary first; then the ledger
  file is made writable (when it exists), rewritten and made read-only, every
  \<^verbatim>\<open>OSError\<close> being caught.
\<close>

definition append_to_processed_log :: "env \<Rightarrow> path \<Rightarrow> path \<Rightarrow> dict \<Rightarrow> state \<Rightarrow> state" where
  "append_to_processed_log E output_dir original_file_path metadata st =
     (let log_path = path_join output_dir ''processed_metadata.json'';
          log_entry =
            [(''title'', dict_get metadata ''title'' PNone),
             (''series'', dict_get metadata ''series'' PNone),
             (''year'', dict_get metadata ''formatted_year'' PNone),
             (''asin'', dict_get metadata ''asin'' PNone)];
          st1 = st\<lparr>processed_log_dict :=
                    AList.update original_file_path log_entry (processed_log_dict st)\<rparr>
      in if path_exists E log_path \<and> \<not> chmod_ok E log_path
         then do_fs (Chmod log_path False) st1
         else
           (let st2 = (if path_exists E log_path then do_fs (Chmod log_path True) st1 else st1);
                st3 = do_fs (WriteFile log_path (write_ok E log_path)) st2
            in do_fs (Chmod log_path (chmod_ok E log_path)) st3))"

section \<open>The loop of run_scan (main.py)\<close>

text \<open>
  A failed candidate: \<^verbatim>\<open>move_to_failed_folder(item_path, output_path, dry_run,
  move_files)\<close> and \<^verbatim>\<open>failed_count += 1\<close>.
\<close>

definition fail_item :: "env \<Rightarrow> settings \<Rightarrow> path \<Rightarrow> state \<Rightarrow> state" where
  "fail_item E S item_path st =
     (let st1 = move_to_failed_folder E item_path (output_path S) (dry_run S) (move_files S) st
      in st1\<lparr>failed_count := Suc (failed_count st1)\<rparr>)"

text \<open>
  The body of the \<^verbatim>\<open>try\<close> block, lines 250 to 290: the exception that leaves
  it, if any, and the state. The branches that end in \<^verbatim>\<open>continue\<close> have
  failed the candidate themselves.
\<close>

definition try_body :: "env \<Rightarrow> settings \<Rightarrow> path \<Rightarrow> pyval \<Rightarrow> state \<Rightarrow> exn option \<times> state" where
  "try_body E S item_path best_asin st =
     (let (r, reqs) = get_metadata_by_asin (parse_product_json E) (catalog E) (requests st) best_asin;
          st1 = st\<lparr>requests := reqs\<rparr>
      in case r of
           Inl e \<Rightarrow> (Some e, st1)
         | Inr None \<Rightarrow> (None, fail_item E S item_path st1)
         | Inr (Some raw_metadata) \<Rightarrow>
             if raw_metadata = [] \<or> \<not> truthy (dict_get raw_metadata ''title'' PNone)
             then (None, fail_item E S item_path st1)
             else
     (case format_metadata raw_metadata (configuration S) of
        Inl e \<Rightarrow> (Some e, st1)
      | Inr metadata \<Rightarrow>
     (case organize_audio_file E item_path (output_path S) metadata (max_filename_length S)
             (dry_run S) (move_files S) st1 of
        (Inl e, st2) \<Rightarrow> (Some e, st2)
      | (Inr None, st2) \<Rightarrow> (None, fail_item E S item_path st2)
      | (Inr (Some target_folder), st2) \<Rightarrow>
     (case write_metadata_files E metadata target_folder (dry_run S) (create_opf S) st2 of
        (Some e, st3) \<Rightarrow> (Some e, st3)
      | (None, st3) \<Rightarrow>
     (case download_cover E (dict_get metadata ''cover_url'' PNone)
             (path_join target_folder ''cover.jpg'') (dry_run S) st3 of
        (Some e, st4) \<Rightarrow> (Some e, st4)
      | (None, st4) \<Rightarrow>
          (let st5 = (if \<not> dry_run S
                      then append_to_processed_log E (output_path S) item_path metadata st4
                      else st4)
           in (None, st5\<lparr>processed_count := Suc (processed_count st5)\<rparr>)))))))"

text \<open>
  The loop body for one candidate, lines 194 to 295. The waterfall stands before
  the \<^verbatim>\<open>try\<close>: an exception raised in it leaves the loop and \<^verbatim>\<open>run_scan\<close>
  (the first component is the exception). An exception raised in the \<^verbatim>\<open>try\<close> block is caught by
  \<^verbatim>\<open>except Exception\<close>, which fails the candidate.
\<close>

definition process_item :: "env \<Rightarrow> settings \<Rightarrow> path \<Rightarrow> state \<Rightarrow> exn option \<times> state" where
  "process_item E S item_path st =
     (case resolve E S item_path st of
        (Inl e, st1) \<Rightarrow> (Some e, st1)
      | (Inr best_asin, st1) \<Rightarrow>
          if \<not> truthy best_asin then (None, fail_item E S item_path st1)
          else (case try_body E S item_path best_asin st1 of
                  (Some e, st2) \<Rightarrow> (None, fail_item E S item_path st2)
                | (None, st2) \<Rightarrow> (None, st2)))"

text \<open>
  \<^verbatim>\<open>for item_path in book_items\<close>: the exception that ended the loop, if any,
  and the state then.
\<close>

fun process_items :: "env \<Rightarrow> settings \<Rightarrow> path list \<Rightarrow> state \<Rightarrow> exn option \<times> state" where
  "process_items E S [] st = (None, st)"
| "process_items E S (item_path # rest) st =
     (case process_item E S item_path st of
        (Some e, st1) \<Rightarrow> (Some e, st1)
      | (None, st1) \<Rightarrow> process_items E S rest st1)"

text \<open>
  The state before the loop: nothing requested or done, both counters zero, and
  the ledger as \<^verbatim>\<open>load_processed_log\<close> returned it.
\<close>

definition initial_state :: "(path \<times> dict) list \<Rightarrow> state" where
  "initial_state ledger =
     \<lparr>requests = [], tag_reads = [], fs_ops = [], placements = [], failed_moves = [],
      processed_log_dict = ledger, processed_count = 0, failed_count = 0\<rparr>"

text \<open>
  \<^verbatim>\<open>run_scan\<close> from the loop on, \<open>book_items\<close> being the candidates that the
  scanner returned: the exception that left \<^verbatim>\<open>run_scan\<close>, if any, and the
  final state, whose counters are the summary returned.
\<close>

definition run_scan ::
  "env \<Rightarrow> settings \<Rightarrow> (path \<times> dict) list \<Rightarrow> path list \<Rightarrow> exn option \<times> state" where
  "run_scan E S ledger book_items = process_items E S book_items (initial_state ledger)"

section \<open>Auxiliary notions for the proofs about the loop\<close>

text \<open>
  The part of the state that the decisions of a run consist of: the catalog
  requests, the tag reads and the placements.
\<close>

definition core :: "state \<Rightarrow> request list \<times> path list \<times> (path \<times> path) list" where
  "core st = (requests st, tag_reads st, placements st)"


section \<open>Example inputs\<close>

text \<open>
  A catalog in which every direct lookup fails and every keyword search answers
  with one product, whose identifier is \<^verbatim>\<open>B000000002\<close>.
\<close>

definition net_mismatch :: api where
  "net_mismatch n rq =
     (case rq of
        DirectLookup a \<Rightarrow> None
      | KeywordSearch k m \<Rightarrow>
          Some [(''products'',
                 PList [PDict [(''asin'', PStr ''B000000002''), (''title'', PStr ''Other'')]])])"

text \<open>A raw metadata dictionary.\<close>

definition raw_my_book :: dict where
  "raw_my_book =
     [(''asin'', PStr ''B000000001''), (''title'', PStr ''My Book''),
      (''authors'', PList [PStr ''Jane Doe'']), (''narrators'', PList [PStr ''N One'']),
      (''series'', PNone), (''release_date'', PStr ''2020-05-01''), (''year'', PStr ''2020'')]"

text \<open>
  A file without embedded tags; a catalog that knows every identifier looked up
  directly and answers every keyword search with the identifier
  \<^verbatim>\<open>B0SEARCH01\<close>; a filesystem on which every operation succeeds.
\<close>

definition no_tags :: tags where
  "no_tags = \<lparr>tag_asin = None, tag_title = None, tag_author = None\<rparr>"

definition catalog_plain :: api where
  "catalog_plain n rq =
     (case rq of
        DirectLookup a \<Rightarrow> Some [(''product'', PDict [(''asin'', a)])]
      | KeywordSearch k m \<Rightarrow> Some [(''products'', PList [PDict [(''asin'', PStr ''B0SEARCH01'')]])])"

definition env_plain :: env where
  "env_plain =
     \<lparr>tag_reader = (\<lambda>p. no_tags),
      catalog = catalog_plain,
      parse_product_json = (\<lambda>v. Inr raw_my_book),
      clean_filename_for_search = (\<lambda>s. s),
      str_of = (\<lambda>v. []),
      opf_text = (\<lambda>d. Inr []),
      path_exists = (\<lambda>p. True),
      mkdir_ok = (\<lambda>p. True),
      file_op_ok = (\<lambda>p q. True),
      write_ok = (\<lambda>p. True),
      chmod_ok = (\<lambda>p. True),
      cover_fetch_ok = (\<lambda>u. True)\<rparr>"

definition settings_plain :: settings where
  "settings_plain =
     \<lparr>configuration = PDict [], max_filename_length = 200, create_opf = True,
      asin_map = Map.empty, input_path = [''in''], output_path = [''out''],
      dry_run = False, move_files = False\<rparr>"

text \<open>
  A file with the embedded identifier \<^verbatim>\<open>B0TAG00001\<close>, and two manual override
  maps for the file name \<^verbatim>\<open>B0FILE0001.m4b\<close>: one with an identifier, one with
  the empty string.
\<close>

definition env_tagged :: env where
  "env_tagged =
     env_plain\<lparr>tag_reader :=
       (\<lambda>p. \<lparr>tag_asin = Some ''B0TAG00001'', tag_title = Some ''My Book'',
              tag_author = Some ''Jane Doe''\<rparr>)\<rparr>"

definition settings_map :: settings where
  "settings_map = settings_plain\<lparr>asin_map := [''B0FILE0001.m4b'' \<mapsto> ''B0MAP00001'']\<rparr>"

definition settings_empty_map :: settings where
  "settings_empty_map = settings_plain\<lparr>asin_map := [''B0FILE0001.m4b'' \<mapsto> []]\<rparr>"

text \<open>
  A catalog whose answer to a keyword search is \<^verbatim>\<open>{"products": [null]}\<close>.
\<close>

definition env_null_product :: env where
  "env_null_product =
     env_plain\<lparr>catalog := (\<lambda>n rq. Some [(''products'', PList [PNone])])\<rparr>"

text \<open>A filesystem on which copying and moving a file fails.\<close>

definition env_copy_fails :: env where
  "env_copy_fails = env_plain\<lparr>file_op_ok := (\<lambda>p q. False)\<rparr>"

text \<open>A filesystem on which no folder can be created.\<close>

definition env_mkdir_fails :: env where
  "env_mkdir_fails = env_plain\<lparr>mkdir_ok := (\<lambda>p. False)\<rparr>"

section \<open>Properties of the sanitizer\<close>

lemma space_is_space: "is_space (CHR '' '')"
  by (simp add: is_space_def)

lemma space_not_invalid: "\<not> invalid_char (CHR '' '')"
  by (simp add: invalid_char_def)

lemma newline_invalid: "invalid_char (CHR 0x0A)"
  by (simp add: invalid_char_def)

lemma set_sub_invalid: "c \<in> set (sub_invalid b s) \<Longrightarrow> c \<in> set s \<and> \<not> invalid_char c"
  by (induction b s rule: sub_invalid.induct) (auto split: if_splits)

lemma length_sub_invalid: "length (sub_invalid b s) \<le> length s"
  by (induction b s rule: sub_invalid.induct) auto

lemma set_sub_multi_space: "c \<in> set (sub_multi_space s) \<Longrightarrow> c = CHR '' '' \<or> c \<in> set s"
proof (induction s rule: sub_multi_space.induct)
  case 1
  then show ?case by simp
next
  case (2 c cs)
  then show ?case by (auto split: if_splits dest: set_dropWhileD)
qed

lemma length_sub_multi_space: "length (sub_multi_space s) \<le> length s"
proof (induction s rule: sub_multi_space.induct)
  case 1
  then show ?case by simp
next
  case (2 c cs)
  have "length (dropWhile is_space cs) \<le> length cs" by (rule length_dropWhile_le)
  with 2 show ?case by (auto split: if_splits)
qed

lemma hd_sub_multi_space:
  "s \<noteq> [] \<Longrightarrow> \<not> is_space (hd s) \<Longrightarrow> sub_multi_space s \<noteq> [] \<and> hd (sub_multi_space s) = hd s"
  by (cases s) auto

lemma single_spaced_sub_multi_space: "single_spaced (sub_multi_space s)"
proof (induction s rule: sub_multi_space.induct)
  case 1
  then show ?case by simp
next
  case (2 c cs)
  show ?case
  proof (cases "is_space c")
    case True
    let ?d = "dropWhile is_space cs"
    have "?d \<noteq> [] \<Longrightarrow> \<not> is_space (hd ?d)" by (rule hd_dropWhile)
    then have "sub_multi_space ?d \<noteq> [] \<Longrightarrow> \<not> is_space (hd (sub_multi_space ?d))"
      using hd_sub_multi_space [of ?d] by (cases ?d) auto
    with True 2 show ?thesis by simp
  next
    case False
    with 2 show ?thesis by simp
  qed
qed

lemma single_spaced_append: "single_spaced (xs @ ys) \<Longrightarrow> single_spaced xs \<and> single_spaced ys"
  by (induction xs) (auto simp: hd_append split: if_splits)

lemma single_spaced_take: "single_spaced s \<Longrightarrow> single_spaced (take n s)"
  using single_spaced_append [of "take n s" "drop n s"] by simp

lemma single_spaced_drop: "single_spaced s \<Longrightarrow> single_spaced (drop n s)"
  using single_spaced_append [of "take n s" "drop n s"] by simp

lemma single_spaced_only_space: "single_spaced s \<Longrightarrow> c \<in> set s \<Longrightarrow> is_space c \<Longrightarrow> c = CHR '' ''"
  by (induction s) auto

lemma single_spaced_nth:
  "single_spaced s \<Longrightarrow> Suc i < length s \<Longrightarrow> is_space (s ! i) \<Longrightarrow> \<not> is_space (s ! Suc i)"
proof (induction s arbitrary: i)
  case Nil
  then show ?case by simp
next
  case (Cons c cs)
  then show ?case by (cases i) (auto simp: hd_conv_nth)
qed

text \<open>strip\<close>

lemma dropWhile_hd_id: "xs \<noteq> [] \<Longrightarrow> \<not> P (hd xs) \<Longrightarrow> dropWhile P xs = xs"
  by (cases xs) auto

lemma rev_dropWhile_decomp: "xs = rev (dropWhile P (rev xs)) @ rev (takeWhile P (rev xs))"
  by (metis rev_append rev_rev_ident takeWhile_dropWhile_id)

lemma strip_decomp: "\<exists>a b. s = a @ strip s @ b"
proof -
  let ?u = "dropWhile is_space s"
  have 1: "s = takeWhile is_space s @ ?u" by simp
  have 2: "?u = strip s @ rev (takeWhile is_space (rev ?u))"
    unfolding strip_def by (rule rev_dropWhile_decomp)
  show ?thesis using 1 2 by (metis append.assoc)
qed

lemma strip_ends:
  assumes "strip s \<noteq> []"
  shows "\<not> is_space (hd (strip s))" and "\<not> is_space (last (strip s))"
proof -
  let ?u = "dropWhile is_space s"
  let ?v = "dropWhile is_space (rev ?u)"
  from assms have v: "?v \<noteq> []" by (simp add: strip_def)
  then have u: "?u \<noteq> []" by (cases ?u) auto
  have "last (strip s) = hd ?v" using v by (simp add: strip_def last_rev)
  then show "\<not> is_space (last (strip s))" using hd_dropWhile [OF v] by simp
  have "?u = strip s @ rev (takeWhile is_space (rev ?u))"
    unfolding strip_def by (rule rev_dropWhile_decomp)
  then have "hd ?u = hd (strip s)" using assms by (metis hd_append2)
  then show "\<not> is_space (hd (strip s))" using hd_dropWhile [OF u] by simp
qed

lemma strip_id: "(s \<noteq> [] \<Longrightarrow> \<not> is_space (hd s) \<and> \<not> is_space (last s)) \<Longrightarrow> strip s = s"
proof (cases s)
  case Nil
  then show ?thesis by (simp add: strip_def)
next
  case (Cons c cs)
  assume "s \<noteq> [] \<Longrightarrow> \<not> is_space (hd s) \<and> \<not> is_space (last s)"
  with Cons have h: "\<not> is_space (hd s)" and l: "\<not> is_space (last s)" by auto
  from h Cons have 1: "dropWhile is_space s = s" by simp
  from Cons have "rev s \<noteq> []" by simp
  moreover have "hd (rev s) = last s" using Cons by (simp add: hd_rev)
  ultimately have "dropWhile is_space (rev s) = rev s" using l dropWhile_hd_id by metis
  with 1 show ?thesis by (simp add: strip_def)
qed

lemma length_strip: "length (strip s) \<le> length s"
proof -
  obtain a b where "s = a @ strip s @ b" using strip_decomp by blast
  then have "length s = length a + length (strip s) + length b" by (metis length_append add.assoc)
  then show ?thesis by simp
qed

text \<open>rfind\<close>

lemma rfind_neg: "rfind c s e < 0 \<Longrightarrow> c \<notin> set (take e s)"
  by (auto simp: rfind_def Let_def dropWhile_eq_Nil_conv split: if_splits)

lemma rfind_range: "- 1 \<le> rfind c s e"
  by (simp add: rfind_def Let_def)

lemma rfind_nonneg:
  assumes "0 \<le> rfind c s e"
  shows "nat (rfind c s e) < e \<and> nat (rfind c s e) < length s \<and> s ! nat (rfind c s e) = c"
proof -
  let ?t = "take e s"
  let ?r = "dropWhile (\<lambda>x. x \<noteq> c) (rev ?t)"
  from assms have r: "?r \<noteq> []" by (auto simp: rfind_def Let_def split: if_splits)
  then have k: "rfind c s e = int (length ?r) - 1" by (simp add: rfind_def Let_def)
  have hd: "hd ?r = c" using hd_dropWhile [OF r] by simp
  have t: "?t = rev ?r @ rev (takeWhile (\<lambda>x. x \<noteq> c) (rev ?t))"
    by (rule rev_dropWhile_decomp)
  have len: "length ?r \<le> length ?t" using length_dropWhile_le [of _ "rev ?t"] by simp
  have lr: "0 < length ?r" using r by simp
  have "?t ! (length ?r - 1) = (rev ?r) ! (length ?r - 1)"
    using t lr by (metis diff_less length_rev nth_append zero_less_one)
  also have "\<dots> = hd ?r" using r lr by (simp add: rev_nth hd_conv_nth)
  finally have tc: "?t ! (length ?r - 1) = c" using hd by simp
  have lt: "length ?r - 1 < length ?t" using len lr by linarith
  have "length ?t \<le> e" "length ?t \<le> length s" by simp_all
  with lt have lt': "length ?r - 1 < e" "length ?r - 1 < length s" by linarith+
  have n: "nat (rfind c s e) = length ?r - 1" using k lr by simp
  have "s ! (length ?r - 1) = c" using tc lt' by simp
  then show ?thesis using n lt' by simp
qed

lemma passes_set: "c \<in> set (passes s) \<Longrightarrow> \<not> invalid_char c"
proof -
  assume c: "c \<in> set (passes s)"
  obtain a b where "sub_multi_space (sub_invalid True s) = a @ passes s @ b"
    unfolding passes_def using strip_decomp by blast
  then have "set (passes s) \<subseteq> set (sub_multi_space (sub_invalid True s))"
    by (metis Un_upper1 Un_upper2 set_append subset_trans)
  with c have "c \<in> set (sub_multi_space (sub_invalid True s))" by blast
  then have "c = CHR '' '' \<or> c \<in> set (sub_invalid True s)" by (rule set_sub_multi_space)
  then show ?thesis using space_not_invalid set_sub_invalid by blast
qed

lemma passes_single_spaced: "single_spaced (passes s)"
proof -
  obtain a b where "sub_multi_space (sub_invalid True s) = a @ passes s @ b"
    unfolding passes_def using strip_decomp by blast
  then have "single_spaced (a @ passes s @ b)"
    using single_spaced_sub_multi_space [of "sub_invalid True s"] by simp
  then show ?thesis using single_spaced_append by blast
qed

lemma passes_ends:
  "passes s \<noteq> [] \<Longrightarrow> \<not> is_space (hd (passes s)) \<and> \<not> is_space (last (passes s))"
  unfolding passes_def using strip_ends by blast

lemma length_passes: "length (passes s) \<le> length (sub_invalid True s)"
  unfolding passes_def
  using length_strip [of "sub_multi_space (sub_invalid True s)"]
        length_sub_multi_space [of "sub_invalid True s"] by linarith

lemma sanitize_filename_alt:
  "sanitize_filename s m = (if s = [] then [] else truncate_at (passes s) m)"
  by (simp add: sanitize_filename_def truncate_at_def passes_def Let_def)

lemma truncate_at_prefix: "\<exists>n. truncate_at t m = take n t"
  by (auto simp: truncate_at_def Let_def intro: exI [of _ "length t"])

lemma truncate_at_length: "length (truncate_at t m) \<le> m"
proof (cases "length t > m")
  case False
  then show ?thesis by (simp add: truncate_at_def)
next
  case True
  show ?thesis
  proof (cases "rfind (CHR '' '') t m > 0")
    case False
    with True show ?thesis by (simp add: truncate_at_def Let_def)
  next
    case pos: True
    then have "nat (rfind (CHR '' '') t m) < m" using rfind_nonneg [of "CHR '' ''" t m] by simp
    with True pos show ?thesis by (simp add: truncate_at_def Let_def)
  qed
qed

lemma truncate_at_ends:
  assumes ss: "single_spaced t"
    and ends: "t \<noteq> [] \<Longrightarrow> \<not> is_space (hd t) \<and> \<not> is_space (last t)"
    and ne: "truncate_at t m \<noteq> []"
  shows "\<not> is_space (hd (truncate_at t m)) \<and> \<not> is_space (last (truncate_at t m))"
proof (cases "length t > m")
  case False
  then have "truncate_at t m = t" by (simp add: truncate_at_def)
  with ne ends show ?thesis by simp
next
  case True
  then have tne: "t \<noteq> []" by auto
  let ?k = "rfind (CHR '' '') t m"
  show ?thesis
  proof (cases "?k > 0")
    case pos: True
    then have k: "nat ?k < m" "nat ?k < length t" "t ! nat ?k = CHR '' ''"
      using rfind_nonneg [of "CHR '' ''" t m] by simp_all
    have eq: "truncate_at t m = take (nat ?k) t" using True pos by (simp add: truncate_at_def Let_def)
    from pos obtain j where j: "nat ?k = Suc j" by (cases "nat ?k") auto
    have hd: "hd (take (nat ?k) t) = hd t" using j tne by (cases t) auto
    have "last (take (Suc j) t) = t ! j" using k j
      by (metis Suc_lessD take_Suc_conv_app_nth last_snoc)
    moreover have "\<not> is_space (t ! j)"
    proof
      assume a: "is_space (t ! j)"
      have "Suc j < length t" using k j by simp
      then have "\<not> is_space (t ! Suc j)" using single_spaced_nth [OF ss _ a] by blast
      moreover have "t ! Suc j = CHR '' ''" using k j by simp
      ultimately show False using space_is_space by metis
    qed
    ultimately show ?thesis using eq hd j ends tne by simp
  next
    case False
    then have eq: "truncate_at t m = take m t" using True by (simp add: truncate_at_def Let_def)
    have "?k < 0"
    proof (rule ccontr)
      assume "\<not> ?k < 0"
      with False have z: "?k = 0" by simp
      then have "t ! 0 = CHR '' ''" using rfind_nonneg [of "CHR '' ''" t m] by simp
      then have "is_space (hd t)" using tne space_is_space by (simp add: hd_conv_nth)
      with ends tne show False by simp
    qed
    then have nosp: "CHR '' '' \<notin> set (take m t)" by (rule rfind_neg)
    have "\<And>c. c \<in> set (take m t) \<Longrightarrow> \<not> is_space c"
    proof
      fix c assume c: "c \<in> set (take m t)" and sp: "is_space c"
      from c have "c \<in> set t" by (rule in_set_takeD)
      then have "c = CHR '' ''" using single_spaced_only_space [OF ss] sp by simp
      with c nosp show False by simp
    qed
    moreover from ne eq have "take m t \<noteq> []" by simp
    ultimately show ?thesis using eq by (metis hd_in_set last_in_set)
  qed
qed

text \<open>Strings in sanitized form not ending in a period are fixed points of the passes.\<close>

lemma sub_invalid_id:
  "(\<forall>c\<in>set r. \<not> invalid_char c) \<Longrightarrow>
   (r \<noteq> [] \<longrightarrow> last r \<noteq> CHR ''.'' \<and> \<not> is_space (last r)) \<Longrightarrow>
   (b \<longrightarrow> r \<noteq> [] \<longrightarrow> \<not> is_space (hd r)) \<Longrightarrow> sub_invalid b r = r"
proof (induction b r rule: sub_invalid.induct)
  case (1 start)
  then show ?case by simp
next
  case (2 start c cs)
  have ae: "at_end cs \<longleftrightarrow> cs = []"
    using 2(3) newline_invalid by (auto simp: at_end_def)
  show ?case
  proof (cases "cs = []")
    case True
    with 2 show ?thesis by (auto simp: at_end_def)
  next
    case False
    then have rec: "sub_invalid False cs = cs" using 2 by auto
    have "\<not> at_end cs" using ae False by simp
    moreover have "\<not> invalid_char c" using 2(3) by simp
    moreover have "start \<Longrightarrow> \<not> is_space c" using 2(5) by simp
    ultimately show ?thesis using rec by auto
  qed
qed

lemma sub_multi_space_id: "single_spaced r \<Longrightarrow> sub_multi_space r = r"
proof (induction r rule: sub_multi_space.induct)
  case 1
  then show ?case by simp
next
  case (2 c cs)
  show ?case
  proof (cases "is_space c")
    case True
    with 2(3) have c: "c = CHR '' ''" and n: "cs \<noteq> [] \<Longrightarrow> \<not> is_space (hd cs)" and s: "single_spaced cs"
      by auto
    have "dropWhile is_space cs = cs" using n dropWhile_hd_id by (cases cs) auto
    with 2(1) True s c show ?thesis by simp
  next
    case False
    with 2 show ?thesis by simp
  qed
qed

lemma passes_id:
  assumes "\<forall>c\<in>set r. \<not> invalid_char c" and "single_spaced r"
    and "r \<noteq> [] \<Longrightarrow> \<not> is_space (hd r) \<and> \<not> is_space (last r) \<and> last r \<noteq> CHR ''.''"
  shows "passes r = r"
proof -
  have 1: "sub_invalid True r = r" using assms by (intro sub_invalid_id) auto
  have 2: "sub_multi_space r = r" using assms(2) by (rule sub_multi_space_id)
  have 3: "strip r = r" using assms(3) by (intro strip_id) auto
  show ?thesis by (simp add: passes_def 1 2 3)
qed

lemma sub_invalid_trailing_dot: "length (sub_invalid b (xs @ ''.'')) < length (xs @ ''.'')"
proof (induction xs arbitrary: b)
  case Nil
  then show ?case by (simp add: at_end_def)
next
  case (Cons a xs)
  from Cons [of False] show ?case by simp
qed

lemma sanitize_props:
  "(\<forall>c\<in>set (sanitize_filename s m). \<not> invalid_char c)
   \<and> single_spaced (sanitize_filename s m)
   \<and> (sanitize_filename s m \<noteq> [] \<longrightarrow>
        \<not> is_space (hd (sanitize_filename s m)) \<and> \<not> is_space (last (sanitize_filename s m)))
   \<and> length (sanitize_filename s m) \<le> m"
proof (cases "s = []")
  case True
  then show ?thesis by (simp add: sanitize_filename_def)
next
  case False
  then have eq: "sanitize_filename s m = truncate_at (passes s) m" by (simp add: sanitize_filename_alt)
  obtain n where n: "truncate_at (passes s) m = take n (passes s)" using truncate_at_prefix by blast
  have a: "\<forall>c\<in>set (truncate_at (passes s) m). \<not> invalid_char c"
    using n passes_set in_set_takeD by metis
  have b: "single_spaced (truncate_at (passes s) m)"
    using n passes_single_spaced single_spaced_take by metis
  have c: "truncate_at (passes s) m \<noteq> [] \<longrightarrow>
        \<not> is_space (hd (truncate_at (passes s) m)) \<and> \<not> is_space (last (truncate_at (passes s) m))"
    using truncate_at_ends [OF passes_single_spaced passes_ends] by blast
  show ?thesis unfolding eq using a b c truncate_at_length by blast
qed

subsection \<open>Claim C6: idempotence\<close>

text \<open>
  C6 as stated (for every string \<open>s\<close> and maximum length,
  \<open>sanitize(sanitize(s)) = sanitize(s)\<close>) fails: the pattern removes one period at
  the end of the input only, so \<^verbatim>\<open>"a.."\<close> is sanitized to \<^verbatim>\<open>"a."\<close> and that to
  \<^verbatim>\<open>"a"\<close>.
\<close>

theorem sanitize_filename_not_idempotent:
  "sanitize_filename (sanitize_filename ''a..'' 200) 200 \<noteq> sanitize_filename ''a..'' 200"
  by (simp add: sanitize_filename_def strip_def at_end_def invalid_char_def is_space_def
      rfind_def)

text \<open>
  C6, amended: for every string \<open>s\<close> and maximum length \<open>m\<close>, sanitizing the
  sanitized string again returns it unchanged exactly when the sanitized string
  is empty or does not end in a period.
\<close>

theorem sanitize_filename_idempotent_iff:
  "sanitize_filename (sanitize_filename s m) m = sanitize_filename s m
   \<longleftrightarrow> (sanitize_filename s m = [] \<or> last (sanitize_filename s m) \<noteq> CHR ''.'')"
proof -
  let ?r = "sanitize_filename s m"
  show ?thesis
  proof (cases "?r = []")
    case True
    then show ?thesis by (simp add: sanitize_filename_def)
  next
    case ne: False
    show ?thesis
    proof (cases "last ?r = CHR ''.''")
      case True
      then obtain xs where xs: "?r = xs @ ''.''" using ne by (metis append_butlast_last_id)
      have "length (sanitize_filename ?r m) \<le> length (truncate_at (passes ?r) m)"
        using ne by (simp add: sanitize_filename_alt)
      also have "\<dots> \<le> length (passes ?r)"
        using truncate_at_prefix [of "passes ?r" m] by (metis length_take min.cobounded1)
      also have "\<dots> \<le> length (sub_invalid True ?r)" by (rule length_passes)
      also have "\<dots> < length ?r" using sub_invalid_trailing_dot [of True xs] xs by simp
      finally have "sanitize_filename ?r m \<noteq> ?r" by auto
      with True ne show ?thesis by simp
    next
      case False
      have p: "passes ?r = ?r" using sanitize_props [of s m] ne False by (intro passes_id) auto
      have "truncate_at ?r m = ?r" using sanitize_props [of s m] by (simp add: truncate_at_def)
      with p ne False show ?thesis by (simp add: sanitize_filename_alt)
    qed
  qed
qed

theorem sanitize_filename_idempotent_iff_witness:
  "sanitize_filename (sanitize_filename ''  My <Book>:  a/b  '' 200) 200
     = sanitize_filename ''  My <Book>:  a/b  '' 200
   \<and> sanitize_filename ''  My <Book>:  a/b  '' 200 = ''My Book ab''"
proof -
  have r: "sanitize_filename ''  My <Book>:  a/b  '' 200 = ''My Book ab''"
    by (simp add: sanitize_filename_def strip_def at_end_def invalid_char_def is_space_def
        rfind_def)
  have "sanitize_filename ''  My <Book>:  a/b  '' 200 = []
        \<or> last (sanitize_filename ''  My <Book>:  a/b  '' 200) \<noteq> CHR ''.''"
    by (simp add: r)
  then have "sanitize_filename (sanitize_filename ''  My <Book>:  a/b  '' 200) 200
     = sanitize_filename ''  My <Book>:  a/b  '' 200"
    using sanitize_filename_idempotent_iff [of "''  My <Book>:  a/b  ''" 200] by blast
  with r show ?thesis by blast
qed

subsection \<open>Claim C7: what the output excludes\<close>

text \<open>
  C7 as stated fails in one point: control characters other than the whitespace
  ones are not removed. U+0001 is a control character and survives.
\<close>

theorem sanitize_filename_keeps_control_char:
  "spec_control_char (CHR 0x01)
   \<and> sanitize_filename [CHR ''a'', CHR 0x01, CHR ''b''] 200 = [CHR ''a'', CHR 0x01, CHR ''b'']"
  by (simp add: spec_control_char_def sanitize_filename_def strip_def at_end_def
      invalid_char_def is_space_def rfind_def)

text \<open>
  C7, amended: for every input string and maximum length, the output contains none
  of the characters \<^verbatim>\<open>< > : " / \ | ? *\<close>, line feed, carriage return and tab;
  its only whitespace character is U+0020 (so the whitespace control characters
  U+000B, U+000C, U+001C..U+001F are absent too); it neither starts nor ends with
  whitespace; and its length is at most the maximum. Nothing is said about the
  other control characters, which the sanitizer keeps.
\<close>

theorem sanitize_filename_output:
  "set (sanitize_filename s m)
     \<inter> {CHR ''<'', CHR ''>'', CHR '':'', CHR 0x22, CHR ''/'', CHR 0x5C, CHR ''|'',
        CHR ''?'', CHR ''*'', CHR 0x0A, CHR 0x0D, CHR 0x09} = {}
   \<and> (\<forall>c\<in>set (sanitize_filename s m). is_space c \<longrightarrow> c = CHR '' '')
   \<and> (sanitize_filename s m \<noteq> [] \<longrightarrow>
        \<not> is_space (hd (sanitize_filename s m)) \<and> \<not> is_space (last (sanitize_filename s m)))
   \<and> length (sanitize_filename s m) \<le> m"
proof -
  let ?r = "sanitize_filename s m"
  have p: "(\<forall>c\<in>set ?r. \<not> invalid_char c) \<and> single_spaced ?r
     \<and> (?r \<noteq> [] \<longrightarrow> \<not> is_space (hd ?r) \<and> \<not> is_space (last ?r)) \<and> length ?r \<le> m"
    by (rule sanitize_props)
  then have "\<forall>c\<in>set ?r. \<not> invalid_char c" by blast
  then have 1: "set ?r \<inter> {CHR ''<'', CHR ''>'', CHR '':'', CHR 0x22, CHR ''/'', CHR 0x5C,
      CHR ''|'', CHR ''?'', CHR ''*'', CHR 0x0A, CHR 0x0D, CHR 0x09} = {}"
    unfolding invalid_char_def by blast
  have 2: "\<forall>c\<in>set ?r. is_space c \<longrightarrow> c = CHR '' ''"
    using p single_spaced_only_space by blast
  show ?thesis using 1 2 p by blast
qed

theorem sanitize_filename_output_witness:
  "sanitize_filename ''a  <b>  c d'' 6 = ''a b c''
   \<and> set ''a b c''
     \<inter> {CHR ''<'', CHR ''>'', CHR '':'', CHR 0x22, CHR ''/'', CHR 0x5C, CHR ''|'',
        CHR ''?'', CHR ''*'', CHR 0x0A, CHR 0x0D, CHR 0x09} = {}
   \<and> \<not> is_space (hd ''a b c'') \<and> \<not> is_space (last ''a b c'')
   \<and> length ''a b c'' \<le> (6::nat)"
proof -
  have r: "sanitize_filename ''a  <b>  c d'' 6 = ''a b c''"
    by (simp add: sanitize_filename_def strip_def at_end_def invalid_char_def is_space_def
        rfind_def)
  show ?thesis using sanitize_filename_output [of "''a  <b>  c d''" 6] unfolding r by simp
qed

section \<open>Properties of the configuration lookup\<close>

lemma traverse_append:
  "traverse v (ks @ ks') = (case traverse v ks of Inl e \<Rightarrow> Inl e | Inr v' \<Rightarrow> traverse v' ks')"
  by (induction ks arbitrary: v) (auto split: sum.splits)

lemma py_getitem_not_dict: "\<not> is_dict v \<Longrightarrow> py_getitem v k = Inl TypeError"
  by (cases v) auto

lemma py_getitem_KeyError:
  "py_getitem v k = Inl KeyError \<longleftrightarrow> (\<exists>d. v = PDict d \<and> map_of d k = None)"
  by (cases v) (auto split: option.splits)

lemma traverse_Inl:
  "traverse v ks = Inl e \<Longrightarrow>
   \<exists>pre k rest w. ks = pre @ k # rest \<and> traverse v pre = Inr w \<and> py_getitem w k = Inl e"
proof (induction ks arbitrary: v)
  case Nil
  then show ?case by simp
next
  case (Cons k ks)
  show ?case
  proof (cases "py_getitem v k")
    case (Inl e')
    with Cons.prems have "e' = e" by simp
    with Inl have "k # ks = [] @ k # ks \<and> traverse v [] = Inr v \<and> py_getitem v k = Inl e" by simp
    then show ?thesis by blast
  next
    case (Inr v')
    with Cons.prems have "traverse v' ks = Inl e" by simp
    from Cons.IH [OF this] obtain pre k' rest w where
      "ks = pre @ k' # rest" "traverse v' pre = Inr w" "py_getitem w k' = Inl e" by blast
    with Inr have "k # ks = (k # pre) @ k' # rest \<and> traverse v (k # pre) = Inr w
        \<and> py_getitem w k' = Inl e" by simp
    then show ?thesis by blast
  qed
qed

subsection \<open>Claim C9: the default stands in for a missing key only\<close>

text \<open>
  C9: \<^verbatim>\<open>get_config_value\<close> returns the supplied default only when the traversal
  of the dot-separated key path fails with a missing key; when a value met along
  the path is present but is not a dictionary (a string, a list, a number,
  \<^verbatim>\<open>None\<close>), the subscript raises \<^verbatim>\<open>TypeError\<close>, which is not caught, and no
  default is returned. The three conjuncts: a non-dictionary along the path
  raises; a dictionary without the next key gives the default; and a returned
  value is the value found at the end of the path, or it is the default and a
  dictionary along the path lacks the next key.
\<close>

theorem get_config_value_default_only_on_missing_key:
  "(split_on (CHR ''.'') key_path = pre @ k # rest \<and> traverse config pre = Inr v \<and> \<not> is_dict v
      \<longrightarrow> get_config_value config key_path dflt = Inl TypeError)
   \<and> (split_on (CHR ''.'') key_path = pre @ k # rest \<and> traverse config pre = Inr (PDict d)
        \<and> map_of d k = None
      \<longrightarrow> get_config_value config key_path dflt = Inr dflt)
   \<and> (get_config_value config key_path dflt = Inr r
      \<longrightarrow> traverse config (split_on (CHR ''.'') key_path) = Inr r
          \<or> (r = dflt \<and> (\<exists>pre' k' rest' d'. split_on (CHR ''.'') key_path = pre' @ k' # rest'
                \<and> traverse config pre' = Inr (PDict d') \<and> map_of d' k' = None)))"
proof (intro conjI impI)
  assume "split_on (CHR ''.'') key_path = pre @ k # rest \<and> traverse config pre = Inr v \<and> \<not> is_dict v"
  then show "get_config_value config key_path dflt = Inl TypeError"
    by (simp add: get_config_value_def traverse_append py_getitem_not_dict)
next
  assume "split_on (CHR ''.'') key_path = pre @ k # rest \<and> traverse config pre = Inr (PDict d)
        \<and> map_of d k = None"
  then show "get_config_value config key_path dflt = Inr dflt"
    by (simp add: get_config_value_def traverse_append)
next
  assume a: "get_config_value config key_path dflt = Inr r"
  let ?ks = "split_on (CHR ''.'') key_path"
  show "traverse config ?ks = Inr r
          \<or> (r = dflt \<and> (\<exists>pre' k' rest' d'. ?ks = pre' @ k' # rest'
                \<and> traverse config pre' = Inr (PDict d') \<and> map_of d' k' = None))"
  proof (cases "traverse config ?ks")
    case (Inr v)
    with a show ?thesis by (simp add: get_config_value_def)
  next
    case (Inl e)
    with a have e: "e = KeyError" and r: "r = dflt"
      by (auto simp: get_config_value_def split: if_splits)
    from traverse_Inl [OF Inl] e obtain pre' k' rest' w where
      w: "?ks = pre' @ k' # rest'" "traverse config pre' = Inr w" "py_getitem w k' = Inl KeyError"
      by blast
    from w(3) obtain d' where d': "w = PDict d'" "map_of d' k' = None"
      unfolding py_getitem_KeyError by blast
    have "?ks = pre' @ k' # rest' \<and> traverse config pre' = Inr (PDict d') \<and> map_of d' k' = None"
      using w(1,2) d' by simp
    then have "\<exists>pre' k' rest' d'. ?ks = pre' @ k' # rest'
                \<and> traverse config pre' = Inr (PDict d') \<and> map_of d' k' = None"
      by (intro exI)
    with r show ?thesis by (intro disjI2 conjI)
  qed
qed

theorem get_config_value_default_only_on_missing_key_witness:
  "get_config_value (PDict [(''organizer'', PStr ''abc'')]) ''organizer.x'' (PBool True)
     = Inl TypeError
   \<and> get_config_value (PDict [(''organizer'', PDict [])]) ''organizer.x'' (PBool True)
     = Inr (PBool True)"
proof -
  have s: "split_on (CHR ''.'') ''organizer.x'' = [''organizer''] @ ''x'' # []"
    by simp
  have 1: "traverse (PDict [(''organizer'', PStr ''abc'')]) [''organizer''] = Inr (PStr ''abc'')"
    by simp
  have 2: "traverse (PDict [(''organizer'', PDict [])]) [''organizer''] = Inr (PDict [])"
    by simp
  have a: "get_config_value (PDict [(''organizer'', PStr ''abc'')]) ''organizer.x'' (PBool True)
     = Inl TypeError"
    using get_config_value_default_only_on_missing_key
      [where key_path = "''organizer.x''" and pre = "[''organizer'']" and k = "''x''"
         and rest = "[]" and config = "PDict [(''organizer'', PStr ''abc'')]"
         and v = "PStr ''abc''" and dflt = "PBool True"] s 1
    by simp
  have b: "get_config_value (PDict [(''organizer'', PDict [])]) ''organizer.x'' (PBool True)
     = Inr (PBool True)"
    using get_config_value_default_only_on_missing_key
      [where key_path = "''organizer.x''" and pre = "[''organizer'']" and k = "''x''"
         and rest = "[]" and config = "PDict [(''organizer'', PDict [])]"
         and d = "[]" and dflt = "PBool True"] s 2
    by simp
  from a b show ?thesis by (rule conjI)
qed

section \<open>Properties of the catalog client\<close>

subsection \<open>Claim C2: a mismatched identifier is never substituted\<close>

text \<open>
  C2: for every identifier, if the direct lookup fails (no answer, or an answer
  without a product) and the keyword search that follows has a top result whose
  identifier differs from the one being verified, then
  \<^verbatim>\<open>get_metadata_by_asin\<close> returns \<^verbatim>\<open>None\<close>; no lookup of the other
  identifier is made (the requests are the failed lookup and the search, and no
  more), so its data cannot be returned.
\<close>

theorem get_metadata_mismatch_fails:
  assumes "\<not> has_key (net (length reqs) (DirectLookup asin)) ''product''"
    and "search_by_keywords net (reqs @ [DirectLookup asin]) asin 1 = (results, reqs2)"
    and "first_asin results = Inr matched"
    and "\<not> py_eq matched asin"
  shows "get_metadata_by_asin parse net reqs asin
           = (Inr None, reqs @ [DirectLookup asin, KeywordSearch asin 1])"
  using assms
  by (auto simp: get_metadata_by_asin_def make_api_request_def search_by_keywords_def Let_def
      split: if_splits)

theorem get_metadata_mismatch_fails_witness:
  "\<not> has_key (net_mismatch (length []) (DirectLookup (PStr ''B000000001''))) ''product''
   \<and> first_asin (fst (search_by_keywords net_mismatch ([] @ [DirectLookup (PStr ''B000000001'')])
         (PStr ''B000000001'') 1)) = Inr (PStr ''B000000002'')
   \<and> \<not> py_eq (PStr ''B000000002'') (PStr ''B000000001'')
   \<and> get_metadata_by_asin (\<lambda>v. Inl ValueError) net_mismatch [] (PStr ''B000000001'')
       = (Inr None, [DirectLookup (PStr ''B000000001''), KeywordSearch (PStr ''B000000001'') 1])"
proof -
  let ?a = "PStr ''B000000001''"
  have 1: "\<not> has_key (net_mismatch (length []) (DirectLookup ?a)) ''product''"
    by (simp add: net_mismatch_def has_key_def)
  have 2: "search_by_keywords net_mismatch ([] @ [DirectLookup ?a]) ?a 1
     = (PList [PDict [(''asin'', PStr ''B000000002''), (''title'', PStr ''Other'')]],
        [DirectLookup ?a, KeywordSearch ?a 1])"
    by (simp add: search_by_keywords_def make_api_request_def net_mismatch_def has_key_def
        the_key_def dict_get_def)
  have 3: "first_asin (PList [PDict [(''asin'', PStr ''B000000002''), (''title'', PStr ''Other'')]])
     = Inr (PStr ''B000000002'')"
    by (simp add: first_asin_def dict_get_def)
  have 4: "\<not> py_eq (PStr ''B000000002'') ?a" by simp
  have 5: "get_metadata_by_asin (\<lambda>v. Inl ValueError) net_mismatch [] ?a
       = (Inr None, [DirectLookup ?a, KeywordSearch ?a 1])"
    using get_metadata_mismatch_fails [OF 1 2 3 4, of "\<lambda>v. Inl ValueError"] by simp
  show ?thesis using 1 2 3 4 5 by simp
qed

section \<open>Properties of the metadata formatter\<close>

lemma length_setitem: "length (setitem a k v h) = length h"
  by (simp add: setitem_def)

lemma setitem_other: "a \<noteq> b \<Longrightarrow> setitem a k v h ! b = h ! b"
  by (simp add: setitem_def)

lemma set_year_frame:
  "length (set_year fmt md rd f h) = length h \<and> (a \<noteq> f \<longrightarrow> set_year fmt md rd f h ! a = h ! a)"
  by (simp add: set_year_def length_setitem setitem_other)

lemma set_album_artist_frame:
  "length (snd (set_album_artist fmt dl au f h)) = length h
   \<and> (a \<noteq> f \<longrightarrow> snd (set_album_artist fmt dl au f h) ! a = h ! a)"
  by (simp add: set_album_artist_def length_setitem setitem_other Let_def split: sum.splits)

lemma set_artist_frame:
  "length (snd (set_artist fmt dl na f h)) = length h
   \<and> (a \<noteq> f \<longrightarrow> snd (set_artist fmt dl na f h) ! a = h ! a)"
  by (simp add: set_artist_def length_setitem setitem_other Let_def split: sum.splits)

lemma set_narrator_frame:
  "length (snd (set_narrator dl na f h)) = length h
   \<and> (a \<noteq> f \<longrightarrow> snd (set_narrator dl na f h) ! a = h ! a)"
  by (simp add: set_narrator_def length_setitem setitem_other split: sum.splits)

lemma apply_formatting_rules_frame:
  assumes "a < length h"
  shows "snd (apply_formatting_rules h metadata config) ! a = h ! a"
proof (cases "py_get config ''formatting'' (PDict [])")
  case (Inl e)
  then show ?thesis by (simp add: apply_formatting_rules_def)
next
  case (Inr fmt_cfg)
  show ?thesis
  proof (cases "is_dict fmt_cfg")
    case False
    with Inr show ?thesis by (cases fmt_cfg) (simp_all add: apply_formatting_rules_def)
  next
    case True
    then obtain fmt where fmt: "fmt_cfg = PDict fmt" by (cases fmt_cfg) auto
    let ?f = "length h"
    let ?h1 = "h @ [h ! metadata]"
    let ?dl = "dict_get fmt ''multi_value_delimiter'' (PStr '' & '')"
    let ?au = "dict_get (h ! metadata) ''authors'' (PList [])"
    let ?na = "dict_get (h ! metadata) ''narrators'' (PList [])"
    let ?h2 = "set_year fmt (?h1 ! metadata) (dict_get (h ! metadata) ''release_date'' PNone) ?f ?h1"
    let ?r3 = "set_album_artist fmt ?dl ?au ?f ?h2"
    let ?r4 = "set_artist fmt ?dl ?na ?f (snd ?r3)"
    let ?r5 = "set_narrator ?dl ?na ?f (snd ?r4)"
    from assms have ne: "a \<noteq> ?f" by simp
    have 1: "?h1 ! a = h ! a" using assms by (simp add: nth_append)
    have 2: "?h2 ! a = h ! a" using set_year_frame [of fmt _ _ ?f ?h1 a] ne 1 by simp
    have 3: "snd ?r3 ! a = h ! a" using set_album_artist_frame [of fmt ?dl ?au ?f ?h2 a] ne 2 by simp
    have 4: "snd ?r4 ! a = h ! a" using set_artist_frame [of fmt ?dl ?na ?f "snd ?r3" a] ne 3 by simp
    have 5: "snd ?r5 ! a = h ! a" using set_narrator_frame [of ?dl ?na ?f "snd ?r4" a] ne 4 by simp
    have "snd (apply_formatting_rules h metadata config) \<in> {snd ?r3, snd ?r4, snd ?r5}"
      using Inr fmt
      by (auto simp: apply_formatting_rules_def copy_dict_def Let_def split: prod.splits option.splits)
    with 3 4 5 show ?thesis by auto
  qed
qed

lemma apply_formatting_rules_result:
  assumes "fst (apply_formatting_rules h metadata config) = Inr r"
  shows "r = length h"
  using assms
  by (auto simp: apply_formatting_rules_def copy_dict_def Let_def
      split: sum.splits pyval.splits prod.splits option.splits)

subsection \<open>Claim C10: the formatter does not mutate its input\<close>

text \<open>
  C10: \<^verbatim>\<open>apply_formatting_rules\<close> never mutates its input. For every store, every
  dictionary in it taken as the raw metadata and every configuration, the input
  dictionary has the same keys and values after the call as before, whether the
  call returns or raises; so has every other dictionary that existed before the
  call; and the dictionary returned is a new object, not the input.
\<close>

theorem apply_formatting_rules_keeps_input:
  assumes "metadata < length h"
  shows "snd (apply_formatting_rules h metadata config) ! metadata = h ! metadata
    \<and> (\<forall>a < length h. snd (apply_formatting_rules h metadata config) ! a = h ! a)
    \<and> (\<forall>r. fst (apply_formatting_rules h metadata config) = Inr r \<longrightarrow> r \<noteq> metadata)"
proof (intro conjI allI impI)
  show "snd (apply_formatting_rules h metadata config) ! metadata = h ! metadata"
    using assms by (rule apply_formatting_rules_frame)
next
  fix a assume "a < length h"
  then show "snd (apply_formatting_rules h metadata config) ! a = h ! a"
    by (rule apply_formatting_rules_frame)
next
  fix r assume "fst (apply_formatting_rules h metadata config) = Inr r"
  then have "r = length h" by (rule apply_formatting_rules_result)
  with assms show "r \<noteq> metadata" by simp
qed

theorem apply_formatting_rules_keeps_input_witness:
  "(0::nat) < length [raw_my_book]
   \<and> snd (apply_formatting_rules [raw_my_book] 0 (PDict [])) ! 0 = raw_my_book
   \<and> fst (apply_formatting_rules [raw_my_book] 0 (PDict [])) = Inr 1"
proof -
  have l: "(0::nat) < length [raw_my_book]" by simp
  have r: "fst (apply_formatting_rules [raw_my_book] 0 (PDict [])) = Inr 1"
    by (simp add: apply_formatting_rules_def raw_my_book_def dict_get_def copy_dict_def
        set_year_def set_album_artist_def set_artist_def set_narrator_def setitem_def
        py_join_def Let_def)
  have "snd (apply_formatting_rules [raw_my_book] 0 (PDict [])) ! 0 = [raw_my_book] ! 0"
    using apply_formatting_rules_keeps_input [OF l, of "PDict []"] by blast
  with l r show ?thesis by simp
qed

section \<open>Properties of the identity resolver\<close>

lemmas example_defs = env_plain_def settings_plain_def no_tags_def catalog_plain_def env_tagged_def
  settings_map_def settings_empty_map_def env_null_product_def env_copy_fails_def
  env_mkdir_fails_def raw_my_book_def initial_state_def

lemmas resolve_defs = resolve_def stage_map_def stage_tags_def stage_tag_search_def
  stage_filename_search_def search_stage_def search_by_keywords_def make_api_request_def
  has_key_def the_key_def first_asin_def dict_get_def opt_truthy_def path_name_def path_parent_def
  asin_in_filename_def asin_at_def is_word_def asin_char_def

subsection \<open>Claim C1: the manual override map comes first\<close>

text \<open>
  C1 as stated (for every candidate whose file name is a key of the manual
  override map, resolution returns the identifier of the map and consults no
  later stage) fails when the map holds the empty string for the file name: each
  later block runs under \<^verbatim>\<open>if not best_asin\<close>, and the empty string is false.
  Here the file name \<^verbatim>\<open>B0FILE0001.m4b\<close> is a key of the map, the tag reader is
  consulted, and the embedded identifier is returned.
\<close>

theorem resolve_empty_map_value:
  "asin_map settings_empty_map (path_name [''in'', ''B0FILE0001.m4b'']) = Some []
   \<and> resolve env_tagged settings_empty_map [''in'', ''B0FILE0001.m4b''] (initial_state [])
       = (Inr (PStr ''B0TAG00001''),
          (initial_state [])\<lparr>tag_reads := [[''in'', ''B0FILE0001.m4b'']]\<rparr>)"
  by (simp add: example_defs resolve_defs)

text \<open>
  C1, amended: for every candidate whose file name is a key of the manual
  override map with an identifier that is not the empty string, resolution
  returns that identifier, whatever the embedded tags and the file name hold,
  and no later stage is consulted: the state is unchanged, so no tag is read and
  no catalog request is made.
\<close>

theorem resolve_manual_map:
  assumes "asin_map S (path_name item_path) = Some a" and "a \<noteq> []"
  shows "resolve E S item_path st = (Inr (PStr a), st)"
  using assms
  by (simp add: resolve_def stage_map_def stage_tags_def stage_tag_search_def
      stage_filename_search_def)

theorem resolve_manual_map_witness:
  "asin_map settings_map (path_name [''in'', ''B0FILE0001.m4b'']) = Some ''B0MAP00001''
   \<and> tag_asin (tag_reader env_tagged [''in'', ''B0FILE0001.m4b'']) = Some ''B0TAG00001''
   \<and> asin_in_filename ''B0FILE0001.m4b'' = Some ''B0FILE0001''
   \<and> resolve env_tagged settings_map [''in'', ''B0FILE0001.m4b''] (initial_state [])
       = (Inr (PStr ''B0MAP00001''), initial_state [])"
proof -
  have 1: "asin_map settings_map (path_name [''in'', ''B0FILE0001.m4b'']) = Some ''B0MAP00001''"
    by (simp add: example_defs path_name_def)
  have 2: "''B0MAP00001'' \<noteq> []" by simp
  have 3: "tag_asin (tag_reader env_tagged [''in'', ''B0FILE0001.m4b'']) = Some ''B0TAG00001''"
    by (simp add: example_defs)
  have 4: "asin_in_filename ''B0FILE0001.m4b'' = Some ''B0FILE0001''"
    by (simp add: resolve_defs Let_def)
  show ?thesis using resolve_manual_map [OF 1 2, of env_tagged "initial_state []"] 1 3 4 by simp
qed

subsection \<open>Claim C8: the identifier after an underscore\<close>

text \<open>
  C8 (for the file \<^verbatim>\<open>MyBook_B0ABCD1234.m4b\<close> without embedded tags the resolver
  extracts \<^verbatim>\<open>B0ABCD1234\<close> from the file name and makes no keyword search):
  the code does otherwise. The underscore is a word character, so \<^verbatim>\<open>\b\<close> does
  not match between \<^verbatim>\<open>_\<close> and \<^verbatim>\<open>B\<close>; the pattern finds nothing in this file
  name, the resolver goes on to the search by file name (whatever
  \<^verbatim>\<open>clean_filename_for_search\<close> makes of the name), and the identifier it
  returns is the one the catalog answered with.
\<close>

theorem filename_asin_after_underscore_not_found:
  "asin_in_filename ''MyBook_B0ABCD1234.m4b'' = None
   \<and> (\<forall>clean.
        resolve (env_plain\<lparr>clean_filename_for_search := clean\<rparr>) settings_plain
          [''in'', ''MyBook_B0ABCD1234.m4b''] (initial_state [])
        = (Inr (PStr ''B0SEARCH01''),
           (initial_state [])
             \<lparr>requests := [KeywordSearch (PStr (clean ''MyBook_B0ABCD1234.m4b'')) 1],
              tag_reads := [[''in'', ''MyBook_B0ABCD1234.m4b'']]\<rparr>))"
  by (simp add: example_defs resolve_defs Let_def)

section \<open>Properties of the loop of run_scan\<close>

lemmas sanitize_defs = sanitize_filename_def strip_def at_end_def invalid_char_def is_space_def
  rfind_def sanitize_value_def

lemmas run_defs = run_scan_def process_item_def try_body_def fail_item_def
  get_metadata_by_asin_def format_metadata_def apply_formatting_rules_def copy_dict_def
  set_year_def set_album_artist_def set_artist_def set_narrator_def setitem_def py_join_def
  organize_audio_file_def create_book_structure_def safe_file_op_def move_to_failed_folder_def
  write_metadata_files_def write_opf_def write_text_field_def safe_write_def download_cover_def
  append_to_processed_log_def do_fs_def fstr_def path_join_def path_suffix_def

subsection \<open>Claim C3: exceptions and the batch\<close>

text \<open>
  C3 (any exception raised while processing a candidate, at any stage including
  the resolution waterfall, is caught in the per-file loop and turned into a
  failed-folder relocation and a failure count; no exception aborts the batch):
  the code does otherwise for the waterfall, which stands before the \<^verbatim>\<open>try\<close>
  block. Here the catalog answers the keyword search for \<^verbatim>\<open>a.m4b\<close> with
  \<^verbatim>\<open>{"products": [null]}\<close>; \<^verbatim>\<open>results[0].get("asin")\<close> raises
  \<^verbatim>\<open>AttributeError\<close>, which leaves \<^verbatim>\<open>run_scan\<close>: nothing is moved to the
  failed folder, the failure counter stays 0, and \<^verbatim>\<open>b.m4b\<close> is never looked at.
\<close>

theorem waterfall_exception_leaves_run_scan:
  "run_scan env_null_product settings_plain [] [[''in'', ''a.m4b''], [''in'', ''b.m4b'']]
     = (Some AttributeError,
        (initial_state [])\<lparr>requests := [KeywordSearch (PStr ''a.m4b'') 1],
                            tag_reads := [[''in'', ''a.m4b'']]\<rparr>)"
  by (simp add: run_scan_def process_item_def example_defs resolve_defs Let_def)

subsection \<open>Claim C4: the ledger entry and the placement\<close>

lemma run_copy_fails:
  "run_scan env_copy_fails settings_plain [] [[''in'', ''B0FILE0001.m4b'']]
     = (None,
        \<lparr>requests = [DirectLookup (PStr ''B0FILE0001'')],
         tag_reads = [[''in'', ''B0FILE0001.m4b'']],
         fs_ops =
           [MkDir [''out'', ''Jane Doe'', ''My Book {Jane Doe} {2020}''] True,
            CopyFile [''in'', ''B0FILE0001.m4b'']
              [''out'', ''Jane Doe'', ''My Book {Jane Doe} {2020}'',
               ''My Book {Jane Doe} {2020}.m4b''] False,
            WriteFile [''out'', ''Jane Doe'', ''My Book {Jane Doe} {2020}'', ''book.opf''] True,
            Chmod [''out'', ''processed_metadata.json''] True,
            WriteFile [''out'', ''processed_metadata.json''] True,
            Chmod [''out'', ''processed_metadata.json''] True],
         placements =
           [([''in'', ''B0FILE0001.m4b''],
             [''out'', ''Jane Doe'', ''My Book {Jane Doe} {2020}'',
              ''My Book {Jane Doe} {2020}.m4b''])],
         failed_moves = [],
         processed_log_dict =
           [([''in'', ''B0FILE0001.m4b''],
             [(''title'', PStr ''My Book''), (''series'', PNone), (''year'', PStr ''2020''),
              (''asin'', PStr ''B000000001'')])],
         processed_count = 1, failed_count = 0\<rparr>)"
  by (simp add: example_defs resolve_defs sanitize_defs run_defs Let_def)

text \<open>
  C4 (a ledger entry is committed only after the file placement and the artifact
  writing have succeeded; if placement fails no entry is written): the code does
  otherwise. \<^verbatim>\<open>_safe_file_op\<close> catches the \<^verbatim>\<open>OSError\<close> of a failed copy and
  \<^verbatim>\<open>organize_audio_file\<close> returns the target folder all the same. Here the copy
  of \<^verbatim>\<open>B0FILE0001.m4b\<close> fails, and the run still records the file in the
  ledger and counts it as processed.
\<close>

theorem ledger_entry_after_failed_copy:
  "fst (run_scan env_copy_fails settings_plain [] [[''in'', ''B0FILE0001.m4b'']]) = None
   \<and> CopyFile [''in'', ''B0FILE0001.m4b'']
        [''out'', ''Jane Doe'', ''My Book {Jane Doe} {2020}'', ''My Book {Jane Doe} {2020}.m4b'']
        False
      \<in> set (fs_ops (snd (run_scan env_copy_fails settings_plain [] [[''in'', ''B0FILE0001.m4b'']])))
   \<and> map_of (processed_log_dict
        (snd (run_scan env_copy_fails settings_plain [] [[''in'', ''B0FILE0001.m4b'']])))
        [''in'', ''B0FILE0001.m4b'']
      = Some [(''title'', PStr ''My Book''), (''series'', PNone), (''year'', PStr ''2020''),
              (''asin'', PStr ''B000000001'')]
   \<and> processed_count (snd (run_scan env_copy_fails settings_plain [] [[''in'', ''B0FILE0001.m4b'']])) = 1
   \<and> failed_count (snd (run_scan env_copy_fails settings_plain [] [[''in'', ''B0FILE0001.m4b'']])) = 0"
  by (simp add: run_copy_fails)

section \<open>Dry run and real run\<close>

text \<open>
  Writing artifacts, downloading the cover, appending to the ledger and failing a
  candidate leave the requests, the tag reads and the placements as they are.
\<close>

lemma core_do_fs: "core (do_fs op st) = core st"
  by (simp add: core_def do_fs_def)









lemma core_safe_write: "core (snd (safe_write E p c st)) = core st"
  by (simp add: safe_write_def core_do_fs split: pyval.splits)







lemma core_safe_write': "safe_write E p c st = (x, st') \<Longrightarrow> core st' = core st"
  using core_safe_write [of E p c st] by simp























subsection \<open>Claim C5: dry-run equivalence\<close>




end
